theory Spec2Isabelle
  imports Complex_Main "HOL-Library.Sublist"
begin

section \<open>git-ai: commit-message synthesis pipeline\<close>

text \<open>
  A shallow embedding of the prompt builder, the response interpreter, the formatter, the
  validator and the command-line flow of git-ai (\<^verbatim>\<open>src/ai.ts\<close>, \<^verbatim>\<open>src/utils.ts\<close>,
  \<^verbatim>\<open>src/config.ts\<close>, \<^verbatim>\<open>src/index.ts\<close>).

  Conventions of the model:
  \<^item> a JavaScript string is a \<^typ>\<open>string\<close>, one \<^typ>\<open>char\<close> per code unit; the model covers
    the strings whose code units are below 256, and \<open>length\<close> is the \<^verbatim>\<open>.length\<close> of the source;
  \<^item> an optional field (\<^verbatim>\<open>body?: string\<close>) is an \<^typ>\<open>'a option\<close>, \<open>None\<close> for \<^verbatim>\<open>undefined\<close>;
    the truthiness test \<^verbatim>\<open>if (x)\<close> on an optional string is "defined and not empty";
  \<^item> a thrown \<^verbatim>\<open>Error\<close> is the left injection of a sum;
  \<^item> counts and lengths are natural numbers or integers; the confidence score is a binary64
    number, added with the rounding of the host language; the sampling temperature is only
    compared with its bounds and is a \<^typ>\<open>real\<close>;
  \<^item> the answers of the version-control backend, of the text-generation provider and of
    the user are inputs of the flow, which returns the calls it makes to them.
\<close>

subsection \<open>String primitives of the host language\<close>

text \<open>
  White space is what \<^verbatim>\<open>trim\<close> and \<^verbatim>\<open>\s\<close> take for it: tab, line feed, vertical tab, form
  feed, carriage return, space and no-break space. The line terminators, which \<^verbatim>\<open>.\<close> does
  not match, are line feed and carriage return.
\<close>

definition isWhiteSpace :: "char \<Rightarrow> bool" where
  "isWhiteSpace c \<longleftrightarrow>
     c = CHR 0x09 \<or> c = CHR 0x0A \<or> c = CHR 0x0B \<or> c = CHR 0x0C \<or> c = CHR 0x0D \<or>
     c = CHR 0x20 \<or> c = CHR 0xA0"

definition isLineTerminator :: "char \<Rightarrow> bool" where
  "isLineTerminator c \<longleftrightarrow> c = CHR 0x0A \<or> c = CHR 0x0D"

definition trim :: "string \<Rightarrow> string" where
  "trim s = rev (dropWhile isWhiteSpace (rev (dropWhile isWhiteSpace s)))"

text \<open>
  \<^verbatim>\<open>substring(a, b)\<close> clamps both indices to the string and swaps them when they are out of
  order, so a negative end gives the empty string. \<^verbatim>\<open>lastIndexOf\<close> is \<open>-1\<close> when the
  character does not occur. \<^verbatim>\<open>split\<close> never returns the empty list.
\<close>

definition substring :: "string \<Rightarrow> int \<Rightarrow> int \<Rightarrow> string" where
  "substring s a b =
     (let n = int (length s);
          a' = min (max a 0) n;
          b' = min (max b 0) n;
          lo = min a' b';
          hi = max a' b'
      in take (nat (hi - lo)) (drop (nat lo) s))"

primrec lastIndexOf :: "string \<Rightarrow> char \<Rightarrow> int" where
  "lastIndexOf [] c = - 1"
| "lastIndexOf (x # xs) c =
     (let r = lastIndexOf xs c in if 0 \<le> r then r + 1 else if x = c then 0 else - 1)"

primrec split :: "string \<Rightarrow> char \<Rightarrow> string list" where
  "split [] c = [[]]"
| "split (x # xs) c =
     (if x = c then [] # split xs c
      else (case split xs c of [] \<Rightarrow> [[x]] | l # ls \<Rightarrow> (x # l) # ls))"

fun join :: "string list \<Rightarrow> string \<Rightarrow> string" where
  "join [] sep = []"
| "join [l] sep = l"
| "join (l # m # ls) sep = l @ sep @ join (m # ls) sep"

definition endsWith :: "string \<Rightarrow> string \<Rightarrow> bool" where
  "endsWith s t \<longleftrightarrow> suffix t s"

definition str_includes :: "string \<Rightarrow> char \<Rightarrow> bool" where
  \<comment> \<open>\<^verbatim>\<open>s.includes(c)\<close> for a single character\<close>
  "str_includes s c \<longleftrightarrow> c \<in> set s"

subsection \<open>Diff truncation (\<^verbatim>\<open>AIService.truncateDiff\<close>)\<close>

text \<open>
  The cut keeps the first \<open>maxLength\<close> characters and then everything before their last
  line feed; when they have none, \<^verbatim>\<open>lastIndexOf\<close> is \<open>-1\<close> and nothing is kept.
\<close>

definition truncateDiff :: "string \<Rightarrow> int \<Rightarrow> string" where
  "truncateDiff diff maxLength =
     (if int (length diff) \<le> maxLength then diff
      else let truncated = substring diff 0 maxLength;
               lastNewline = lastIndexOf truncated (CHR 0x0A)
           in substring truncated 0 lastNewline @ ''\<newline>... (diff truncated)'')"


subsection \<open>Regular expressions\<close>

text \<open>
  The fragment of regular expressions the source uses, run by a backtracking matcher with
  the priorities of the host language: alternatives left to right, greedy repetition
  longest first, lazy repetition shortest first, an optional part tried before it is
  skipped. \<open>run n r s g k\<close> matches \<open>r\<close> at the front of \<open>s\<close> (a suffix of an input of
  length \<open>n\<close>) and passes what is left, with the capture groups, to the continuation \<open>k\<close>.
  \<open>search\<close> tries the start positions from left to right, as \<^verbatim>\<open>RegExp.exec\<close> does.
  \<open>Bol\<close> is \<^verbatim>\<open>^\<close> and \<open>Eol\<close> is \<^verbatim>\<open>$\<close> (no pattern of the source has the multiline flag),
  \<open>Dot\<close> is \<^verbatim>\<open>.\<close>, \<open>Space\<close> is \<^verbatim>\<open>\s\<close>, \<open>Word\<close> is \<^verbatim>\<open>\w\<close>, \<open>AnyChar\<close> is \<^verbatim>\<open>[\s\S]\<close>, and
  \<open>Group i\<close> is the \<open>i\<close>-th capturing group. Repetition is only ever applied to a
  character class in the source.
\<close>

definition isWordChar :: "char \<Rightarrow> bool" where
  "isWordChar c \<longleftrightarrow>
     (let n = (of_char c :: nat)
      in (65 \<le> n \<and> n \<le> 90) \<or> (97 \<le> n \<and> n \<le> 122) \<or> (48 \<le> n \<and> n \<le> 57) \<or> n = 95)"

datatype cclass = Chr char | NotChr char | Range char char | AnyChar | Dot | Space | Word

fun accepts :: "cclass \<Rightarrow> char \<Rightarrow> bool" where
  "accepts (Chr d) c \<longleftrightarrow> c = d"
| "accepts (NotChr d) c \<longleftrightarrow> c \<noteq> d"
| "accepts (Range lo hi) c \<longleftrightarrow> (of_char lo :: nat) \<le> of_char c \<and> (of_char c :: nat) \<le> of_char hi"
| "accepts AnyChar c \<longleftrightarrow> True"
| "accepts Dot c \<longleftrightarrow> \<not> isLineTerminator c"
| "accepts Space c \<longleftrightarrow> isWhiteSpace c"
| "accepts Word c \<longleftrightarrow> isWordChar c"

datatype regex =
    Bol | Eol | Atom cclass | Lit string
  | Seq regex regex | Alt regex regex | Opt regex
  | Star cclass | StarLazy cclass | Plus cclass
  | Group nat regex

type_synonym captures = "nat \<Rightarrow> string option"

fun greedy :: "cclass \<Rightarrow> string \<Rightarrow> (string \<Rightarrow> 'a option) \<Rightarrow> 'a option" where
  "greedy a [] k = k []"
| "greedy a (c # cs) k =
     (if accepts a c
      then (case greedy a cs k of Some r \<Rightarrow> Some r | None \<Rightarrow> k (c # cs))
      else k (c # cs))"

fun lazy :: "cclass \<Rightarrow> string \<Rightarrow> (string \<Rightarrow> 'a option) \<Rightarrow> 'a option" where
  "lazy a [] k = k []"
| "lazy a (c # cs) k =
     (case k (c # cs) of Some r \<Rightarrow> Some r
      | None \<Rightarrow> if accepts a c then lazy a cs k else None)"

fun run :: "nat \<Rightarrow> regex \<Rightarrow> string \<Rightarrow> captures \<Rightarrow> (string \<Rightarrow> captures \<Rightarrow> 'a option) \<Rightarrow> 'a option" where
  "run n Bol s g k = (if length s = n then k s g else None)"
| "run n Eol s g k = (if s = [] then k s g else None)"
| "run n (Atom a) s g k = (case s of [] \<Rightarrow> None | c # cs \<Rightarrow> if accepts a c then k cs g else None)"
| "run n (Lit t) s g k = (if prefix t s then k (drop (length t) s) g else None)"
| "run n (Seq r1 r2) s g k = run n r1 s g (\<lambda>s' g'. run n r2 s' g' k)"
| "run n (Alt r1 r2) s g k = (case run n r1 s g k of Some x \<Rightarrow> Some x | None \<Rightarrow> run n r2 s g k)"
| "run n (Opt r) s g k = (case run n r s g k of Some x \<Rightarrow> Some x | None \<Rightarrow> k s g)"
| "run n (Star a) s g k = greedy a s (\<lambda>s'. k s' g)"
| "run n (StarLazy a) s g k = lazy a s (\<lambda>s'. k s' g)"
| "run n (Plus a) s g k =
     (case s of [] \<Rightarrow> None | c # cs \<Rightarrow> if accepts a c then greedy a cs (\<lambda>s'. k s' g) else None)"
| "run n (Group i r) s g k =
     run n r s g (\<lambda>s' g'. k s' (g'(i \<mapsto> take (length s - length s') s)))"

fun search :: "nat \<Rightarrow> regex \<Rightarrow> nat \<Rightarrow> string \<Rightarrow> (nat \<times> string \<times> captures) option" where
  "search n r i [] = run n r [] Map.empty (\<lambda>s' g. Some (i, s', g))"
| "search n r i (c # cs) =
     (case run n r (c # cs) Map.empty (\<lambda>s' g. Some (i, s', g)) of
        Some x \<Rightarrow> Some x
      | None \<Rightarrow> search n r (Suc i) cs)"

definition exec :: "regex \<Rightarrow> string \<Rightarrow> (nat \<times> string \<times> captures) option" where
  "exec r s = search (length s) r 0 s"

text \<open>
  \<^verbatim>\<open>r.test(s)\<close>, \<^verbatim>\<open>s.match(r)\<close> (the capture groups, for a pattern without the global flag)
  and \<^verbatim>\<open>s.replace(r, t)\<close> (the first match replaced by a text without replacement
  patterns).
\<close>

definition test :: "regex \<Rightarrow> string \<Rightarrow> bool" where
  "test r s \<longleftrightarrow> exec r s \<noteq> None"

definition match :: "string \<Rightarrow> regex \<Rightarrow> captures option" where
  "match s r = (case exec r s of None \<Rightarrow> None | Some (i, rest, g) \<Rightarrow> Some g)"

definition replace :: "string \<Rightarrow> regex \<Rightarrow> string \<Rightarrow> string" where
  "replace s r t = (case exec r s of None \<Rightarrow> s | Some (i, rest, g) \<Rightarrow> take i s @ t @ rest)"

fun seqs :: "regex list \<Rightarrow> regex" where
  "seqs [] = Lit []"
| "seqs [r] = r"
| "seqs (r # rs) = Seq r (seqs rs)"

fun alts :: "regex list \<Rightarrow> regex" where
  "alts [] = Lit []"
| "alts [r] = r"
| "alts (r # rs) = Alt r (alts rs)"


subsection \<open>Numbers of the host language\<close>

text \<open>
  A number of the source is an IEEE 754 binary64 value. \<open>Double m e\<close> is the finite value
  \<open>m * 2 ^ e\<close>. An addition computes the exact sum and rounds it to 53 significant bits,
  to the nearest value and to the even significand on a tie (the rounding of \<^verbatim>\<open>+\<close>). The
  limits of the exponent (overflow, subnormal values) are left out: the sums of the source
  lie between 0.5 and 1.1. \<^verbatim>\<open>Math.min\<close> compares the values.
\<close>

datatype double = Double int int

definition valof :: "double \<Rightarrow> rat" where
  "valof d = (case d of Double m e \<Rightarrow>
                if 0 \<le> e then of_int m * 2 ^ nat e else of_int m / 2 ^ nat (- e))"

function bitLength :: "int \<Rightarrow> nat" where
  "bitLength n = (if n \<le> 0 then 0 else Suc (bitLength (n div 2)))"
  by pat_completeness auto

termination
  by (relation "measure nat") auto

declare bitLength.simps [simp del]

definition roundToDouble :: "int \<Rightarrow> int \<Rightarrow> double" where
  "roundToDouble m e =
     (let a = \<bar>m\<bar>; l = bitLength a in
      if l \<le> 53 then Double m e
      else let k = l - 53; q = a div 2 ^ k; r = a mod 2 ^ k; h = 2 ^ (k - 1);
               q' = (if h < r \<or> (r = h \<and> odd q) then q + 1 else q)
           in Double (sgn m * q') (e + int k))"

definition dadd :: "double \<Rightarrow> double \<Rightarrow> double" where
  "dadd x y =
     (case (x, y) of (Double m1 e1, Double m2 e2) \<Rightarrow>
        let e = min e1 e2
        in roundToDouble (m1 * 2 ^ nat (e1 - e) + m2 * 2 ^ nat (e2 - e)) e)"

definition dmin :: "double \<Rightarrow> double \<Rightarrow> double" where
  "dmin x y = (if valof y < valof x then y else x)"

text \<open>
  The decimal literals of the source, each the binary64 value nearest to the decimal
  fraction: \<^verbatim>\<open>0.5\<close>, \<^verbatim>\<open>0.2\<close>, \<^verbatim>\<open>0.1\<close> and \<^verbatim>\<open>1.0\<close>.
\<close>

definition lit_0_5 :: double where "lit_0_5 = Double 1 (- 1)"
definition lit_0_2 :: double where "lit_0_2 = Double 3602879701896397 (- 54)"
definition lit_0_1 :: double where "lit_0_1 = Double 3602879701896397 (- 55)"
definition lit_1_0 :: double where "lit_1_0 = Double 1 0"

subsection \<open>Commit messages and the response interpreter (\<^verbatim>\<open>AIService.parseAIResponse\<close>)\<close>

datatype CommitStyle = Conventional | Standard | Detailed

record CommitMessage =
  title :: string
  body :: "string option"
  type :: "string option"
  scope :: "string option"
  breaking :: "bool option"
  footer :: "string option"

record GeneratedCommit =
  message :: CommitMessage
  confidence :: double
  reasoning :: "string option"

datatype error =
    EmptyResponse
  | NoResponse
  | OpenAIAPIError string
  | GenerationFailed error
  | ProviderFailure string
  | ApiKeyMissing
  | MaxTokensOutOfRange
  | TemperatureOutOfRange
  | NotARepository
  | NoStagedChanges
  | GitDiffFailed
  | CommitFailed

text \<open>
  The heuristic score. The title starts with a lower-case letter when it matches
  \<^verbatim>\<open>/^[a-z]/\<close>; a body counts when it is defined, not empty and longer than 20. Each
  \<^verbatim>\<open>confidence += 0.1\<close> is one rounded addition.
\<close>

definition calculateConfidence :: "string \<Rightarrow> string option \<Rightarrow> double" where
  "calculateConfidence title' body' =
     (let c = lit_0_5;
          c = (if length title' > 10 \<and> length title' \<le> 50 then dadd c lit_0_2 else c);
          c = (if test (Seq Bol (Atom (Range CHR ''a'' CHR ''z''))) title' then dadd c lit_0_1 else c);
          c = (if \<not> endsWith title' ''.'' then dadd c lit_0_1 else c);
          c = (if str_includes title' CHR '':'' then dadd c lit_0_1 else c);
          c = (case body' of
                 None \<Rightarrow> c
               | Some b \<Rightarrow> if b \<noteq> [] \<and> length b > 20 then dadd c lit_0_1 else c)
      in dmin c lit_1_0)"

text \<open>The title pattern \<^verbatim>\<open>/^(\w+)(?:\(([^)]+)\))?(!)?:\s*(.+)$/\<close>.\<close>

definition conventionalRegex :: regex where
  "conventionalRegex =
     seqs [Bol, Group 1 (Plus Word),
           Opt (seqs [Atom (Chr CHR ''(''), Group 2 (Plus (NotChr CHR '')'')), Atom (Chr CHR '')'')]),
           Opt (Group 3 (Atom (Chr CHR ''!''))),
           Atom (Chr CHR '':''), Star Space, Group 4 (Plus Dot), Eol]"

text \<open>
  The cleanup: \<^verbatim>\<open>trim\<close>, then the first match of \<^verbatim>\<open>/^```[\s\S]*?\n/\<close>, of \<^verbatim>\<open>/\n```$/\<close>, of
  \<^verbatim>\<open>/^`+/\<close> and of \<^verbatim>\<open>/`+$/\<close> removed, in this order.
\<close>

definition cleanContent :: "string \<Rightarrow> string" where
  "cleanContent content =
     (let c = trim content;
          c = replace (replace c (seqs [Bol, Lit ''```'', StarLazy AnyChar, Atom (Chr CHR 0x0A)]) [])
                (seqs [Lit ''\<newline>```'', Eol]) [];
          c = replace (replace c (seqs [Bol, Plus (Chr CHR ''`'')]) [])
                (seqs [Plus (Chr CHR ''`''), Eol]) []
      in c)"

text \<open>
  The interpreter keeps the lines whose trimmed text is not empty, raises
  \<^verbatim>\<open>Empty response from AI\<close> when none is left, takes the first for the title and the others,
  joined and trimmed, for the body. The type is whatever the first group captured, cast to
  the type of the tags without a check.
\<close>

definition parseAIResponse :: "string \<Rightarrow> CommitStyle \<Rightarrow> error + GeneratedCommit" where
  "parseAIResponse content style =
     (case filter (\<lambda>line. trim line \<noteq> []) (split (cleanContent content) CHR 0x0A) of
        [] \<Rightarrow> Inl EmptyResponse
      | l # ls \<Rightarrow>
          (let title' = trim l;
               joined = trim (join ls ''\<newline>'');
               body' = (if joined = [] then None else Some joined);
               (type', scope', breaking') =
                 (if style = Conventional
                  then (case match title' conventionalRegex of
                          Some g \<Rightarrow> (g 1, g 2, g 3 \<noteq> None)
                        | None \<Rightarrow> (None, None, False))
                  else (None, None, False))
           in Inr \<lparr>message = \<lparr>title = title', body = body', type = type', scope = scope',
                                breaking = Some breaking', footer = None\<rparr>,
                    confidence = calculateConfidence title' body',
                    reasoning = None\<rparr>))"


subsection \<open>Formatter and validator (\<^verbatim>\<open>src/utils.ts\<close>)\<close>

definition formatConventionalCommit :: "CommitMessage \<Rightarrow> string" where
  "formatConventionalCommit m =
     (let formatted = [];
          formatted =
            (case type m of
               None \<Rightarrow> formatted
             | Some t \<Rightarrow>
                 if t = [] then formatted
                 else (let f = formatted @ t;
                           f = (case scope m of
                                  None \<Rightarrow> f
                                | Some s \<Rightarrow> if s = [] then f else f @ ''('' @ s @ '')'');
                           f = (if breaking m = Some True then f @ ''!'' else f)
                       in f @ '': ''));
          formatted = formatted @ title m;
          formatted =
            (case body m of
               None \<Rightarrow> formatted
             | Some b \<Rightarrow> if b = [] then formatted else formatted @ ''\<newline>\<newline>'' @ b);
          formatted =
            (case footer m of
               None \<Rightarrow> formatted
             | Some b \<Rightarrow> if b = [] then formatted else formatted @ ''\<newline>\<newline>'' @ b)
      in formatted)"

definition formatDetailedCommit :: "CommitMessage \<Rightarrow> string" where
  "formatDetailedCommit m =
     (let formatted = title m
      in (case body m of
            None \<Rightarrow> formatted
          | Some b \<Rightarrow> if b = [] then formatted else formatted @ ''\<newline>\<newline>'' @ b))"

definition formatStandardCommit :: "CommitMessage \<Rightarrow> string" where
  "formatStandardCommit m = title m"

definition formatCommitMessage :: "CommitMessage \<Rightarrow> CommitStyle \<Rightarrow> string" where
  "formatCommitMessage m style' =
     (case style' of
        Conventional \<Rightarrow> formatConventionalCommit m
      | Detailed \<Rightarrow> formatDetailedCommit m
      | Standard \<Rightarrow> formatStandardCommit m)"

text \<open>
  The validator's pattern
  \<^verbatim>\<open>/^(feat|fix|docs|style|refactor|test|chore|perf|ci|build|revert)(\(.+\))?!?:\s.+/\<close>,
  which is not anchored at the end.
\<close>

definition conventionalPattern :: regex where
  "conventionalPattern =
     seqs [Bol,
           Group 1 (alts [Lit ''feat'', Lit ''fix'', Lit ''docs'', Lit ''style'', Lit ''refactor'',
                          Lit ''test'', Lit ''chore'', Lit ''perf'', Lit ''ci'', Lit ''build'',
                          Lit ''revert'']),
           Opt (Group 2 (seqs [Atom (Chr CHR ''(''), Plus Dot, Atom (Chr CHR '')'')])),
           Opt (Atom (Chr CHR ''!'')),
           Atom (Chr CHR '':''), Atom Space, Plus Dot]"

definition validateConventionalCommit :: "string \<Rightarrow> bool" where
  "validateConventionalCommit msg = test conventionalPattern msg"

definition validateStandardCommit :: "string \<Rightarrow> bool" where
  \<comment> \<open>\<^verbatim>\<open>lines[0]\<close> always exists: \<open>split\<close> returns at least one line\<close>
  "validateStandardCommit msg =
     (case split msg CHR 0x0A of
        [] \<Rightarrow> False
      | title' # rest \<Rightarrow> length title' \<le> 50 \<and> \<not> endsWith title' ''.'')"

definition validateCommitMessage :: "string \<Rightarrow> CommitStyle \<Rightarrow> bool" where
  "validateCommitMessage msg style' =
     (if trim msg = [] then False
      else (case style' of
              Conventional \<Rightarrow> validateConventionalCommit msg
            | Standard \<Rightarrow> validateStandardCommit msg
            | Detailed \<Rightarrow> validateStandardCommit msg))"

subsection \<open>Prompt builder (\<^verbatim>\<open>AIService.getSystemPrompt\<close>, \<^verbatim>\<open>AIService.buildPrompt\<close>)\<close>

datatype FileStatus = added | modified | deleted | renamed | copied

record GitFile =
  path :: string
  status :: FileStatus
  insertions :: nat
  deletions :: nat
  diff :: string
  oldPath :: "string option"

record DiffSummary =
  insertions :: nat
  deletions :: nat
  filesChanged :: nat

record GitDiff =
  files :: "GitFile list"
  summary :: DiffSummary
  raw :: string

record AIPromptContext =
  diff :: GitDiff
  style :: CommitStyle
  repoName :: "string option"
  branch :: "string option"
  previousCommits :: "string list option"

text \<open>
  The texts that the template strings insert: the name of a status and of a style, and the
  decimal digits of a count (a non-negative integer).
\<close>

fun statusText :: "FileStatus \<Rightarrow> string" where
  "statusText added = ''added''"
| "statusText modified = ''modified''"
| "statusText deleted = ''deleted''"
| "statusText renamed = ''renamed''"
| "statusText copied = ''copied''"

fun styleText :: "CommitStyle \<Rightarrow> string" where
  "styleText Conventional = ''conventional''"
| "styleText Standard = ''standard''"
| "styleText Detailed = ''detailed''"

definition digitChar :: "nat \<Rightarrow> char" where
  "digitChar d = char_of (48 + d)"

fun numberToString :: "nat \<Rightarrow> string" where
  "numberToString n =
     (if n < 10 then [digitChar n] else numberToString (n div 10) @ [digitChar (n mod 10)])"

text \<open>The system instruction of \<^verbatim>\<open>AIService.getSystemPrompt\<close>, by style.\<close>

definition getSystemPrompt :: "CommitStyle \<Rightarrow> string" where
  "getSystemPrompt style' =
     (let basePrompt = ''You are an expert software developer who writes clear, description commit messages. \<newline>Analyze the provided git diff and generate an appropriate commit message.''
      in (case style' of
            Conventional \<Rightarrow> basePrompt @ ''\<newline>\<newline>Follow the Conventional Commits specification:\<newline>- Format: <type>[optional scope]: <description>\<newline>- Types: feat, fix, docs, style, refactor, test, chore, perf, ci, build, revert\<newline>- Use lowercase for everything\<newline>- Add body and footer if breaking changes or additional context needed\<newline>\<newline>Examples:\<newline>- feat(auth): add OAuth2 login support\<newline>- fix: resolve memory leak in data processing\<newline>- docs: update API documentation for v2.0''
          | Detailed \<Rightarrow> basePrompt @ ''\<newline>\<newline>Create detailed commit messages with:\<newline>- Detailed body explaining what\<newline>- Bullet points for multiple changes\<newline>- Technical details when relevant''
          | Standard \<Rightarrow> basePrompt @ ''\<newline>\<newline>Create standard commit messages:\<newline>- Clear, concise title describing the change\<newline>- Present tense, imperative mood\<newline>- No period at the end''))"

text \<open>
  The prompt grows by appending, as in the source; each \<^verbatim>\<open>forEach\<close> is a \<open>fold\<close> over the
  list, and \<^verbatim>\<open>slice(0, 3)\<close> is \<open>take 3\<close>.
\<close>

definition buildPrompt :: "AIPromptContext \<Rightarrow> string" where
  "buildPrompt context =
     (let prompt = ''Analyze this git diff and generate a '' @ styleText (AIPromptContext.style context)
                     @ '' commit message:\<newline>\<newline>'';
          prompt = (case repoName context of
                      None \<Rightarrow> prompt
                    | Some r \<Rightarrow> if r = [] then prompt else prompt @ ''Repository: '' @ r @ ''\<newline>'');
          prompt = (case branch context of
                      None \<Rightarrow> prompt
                    | Some b \<Rightarrow> if b = [] then prompt else prompt @ ''Branch: '' @ b @ ''\<newline>'');
          prompt = prompt @ ''\<newline>Files changed (''
                     @ numberToString (filesChanged (summary (AIPromptContext.diff context))) @ ''):\<newline>'';
          prompt = fold (\<lambda>file p. p @ ''- '' @ statusText (status file) @ '': '' @ path file
                                    @ '' (+'' @ numberToString (GitFile.insertions file)
                                    @ ''/-'' @ numberToString (GitFile.deletions file) @ '')\<newline>'')
                     (files (AIPromptContext.diff context)) prompt;
          prompt = (case previousCommits context of
                      None \<Rightarrow> prompt
                    | Some cs \<Rightarrow>
                        if length cs = 0 then prompt
                        else fold (\<lambda>commit p. p @ ''- '' @ commit @ ''\<newline>'') (take 3 cs)
                               (prompt @ ''\<newline>Recent commits for context:\<newline>''));
          prompt = prompt @ ''\<newline>Git diff:\<newline>```diff\<newline>'';
          truncatedDiff = truncateDiff (raw (AIPromptContext.diff context)) 3000;
          prompt = prompt @ truncatedDiff;
          prompt = prompt @ ''\<newline>```\<newline>'';
          prompt = prompt @ ''\<newline>Generate a '' @ styleText (AIPromptContext.style context)
                     @ '' commit message. Respond with ONLY the commit message, no additional text.''
      in prompt)"

declare numberToString.simps [simp del]

subsection \<open>Configuration and the command-line flow (\<^verbatim>\<open>src/config.ts\<close>, \<^verbatim>\<open>src/index.ts\<close>)\<close>

record AIConfig =
  apiKey :: string
  model :: string
  maxTokens :: int
  temperature :: real
  organization :: "string option"

record GitSettings =
  defaultStyle :: CommitStyle
  maxDiffSize :: nat
  excludeFiles :: "string list"

record UISettings =
  colorOutput :: bool
  showDiff :: bool

record AppConfig =
  ai :: AIConfig
  git :: GitSettings
  ui :: UISettings

record CLIOptions =
  commit :: bool
  interactive :: bool
  style :: "CommitStyle option"
  dryRun :: bool
  verbose :: bool

text \<open>
  \<^verbatim>\<open>getAIConfig\<close> checks the API key only; \<^verbatim>\<open>validateConfig\<close> holds the checks of the numeric
  settings.
\<close>

definition getAIConfig :: "AppConfig \<Rightarrow> error + AIConfig" where
  "getAIConfig config = (if apiKey (ai config) = [] then Inl ApiKeyMissing else Inr (ai config))"

definition validateConfig :: "AppConfig \<Rightarrow> error + bool" where
  "validateConfig config =
     (if apiKey (ai config) = [] then Inr False
      else if maxTokens (ai config) < 10 \<or> maxTokens (ai config) > 4000 then Inl MaxTokensOutOfRange
      else if temperature (ai config) < 0 \<or> temperature (ai config) > 2 then Inl TemperatureOutOfRange
      else Inr True)"

text \<open>
  One pass of the flow asks the version-control backend, the provider and possibly the
  user; a \<open>world\<close> holds their answers for one pass (\<open>None\<close> where the backend call
  fails), and the flow takes one world for each pass, a further pass being made when the
  user asks to regenerate. The provider answers with an API error, with another failure,
  or with a content that may be missing. The flow returns the calls it made to the provider
  and to \<^verbatim>\<open>git commit\<close>, in order, and how it ended; \<open>AwaitingInput\<close> is a flow that
  has used up the worlds it was given.
\<close>

datatype completion = APIError string | Failure string | Content "string option"

datatype action = ActCommit | ActEdit | ActRegenerate | ActCancel

record world =
  isValidRepository :: bool
  hasStagedChanges :: bool
  getStagedDiff :: "GitDiff option"
  getCurrentBranch :: "string option"
  getRepoName :: "string option"
  getRecentCommits :: "string list option"
  createCompletion :: completion
  promptForAction :: action
  editedMessage :: string
  commitSucceeds :: bool

datatype event = ProviderCall AIConfig string string | GitCommit string

datatype outcome = SetupRequired | Failed error | DryRun | Done | Cancelled | AwaitingInput

text \<open>
  \<^verbatim>\<open>AIService.generateCommitMessage\<close>: the prompt is built, the provider is called with the
  model, \<^verbatim>\<open>max_tokens\<close> and \<^verbatim>\<open>temperature\<close> of the configuration, and the content is
  interpreted; every failure but an API error is wrapped.
\<close>

definition aiGenerateCommitMessage ::
    "AIConfig \<Rightarrow> AIPromptContext \<Rightarrow> completion \<Rightarrow> event list \<times> (error + GeneratedCommit)" where
  "aiGenerateCommitMessage config context reply =
     (let prompt = buildPrompt context;
          call = ProviderCall config (getSystemPrompt (AIPromptContext.style context)) prompt
      in ([call],
          (case reply of
             APIError msg \<Rightarrow> Inl (OpenAIAPIError msg)
           | Failure msg \<Rightarrow> Inl (GenerationFailed (ProviderFailure msg))
           | Content None \<Rightarrow> Inl (GenerationFailed NoResponse)
           | Content (Some content) \<Rightarrow>
               if content = [] then Inl (GenerationFailed NoResponse)
               else (case parseAIResponse content (AIPromptContext.style context) of
                       Inl e \<Rightarrow> Inl (GenerationFailed e)
                     | Inr generated \<Rightarrow> Inr generated))))"

definition performCommit :: "string \<Rightarrow> world \<Rightarrow> event list \<times> outcome" where
  "performCommit msg w = ([GitCommit msg], if commitSucceeds w then Done else Failed CommitFailed)"

definition promptForEdit :: "string \<Rightarrow> world \<Rightarrow> string option" where
  "promptForEdit originalMessage w =
     (if trim (editedMessage w) = [] then None else Some (trim (editedMessage w)))"

text \<open>
  \<^verbatim>\<open>generateCommitMessage\<close> of \<^verbatim>\<open>src/index.ts\<close>. A missing API key ends the flow without an
  error; a failing branch lookup gives \<^verbatim>\<open>main\<close> and failing recent commits give none.
\<close>

fun generateCommitMessage :: "AppConfig \<Rightarrow> CLIOptions \<Rightarrow> world list \<Rightarrow> event list \<times> outcome" where
  "generateCommitMessage config options [] = ([], AwaitingInput)"
| "generateCommitMessage config options (w # ws) =
     (case getAIConfig config of
        Inl e \<Rightarrow> ([], SetupRequired)
      | Inr aiConfig \<Rightarrow>
          if \<not> isValidRepository w then ([], Failed NotARepository)
          else if \<not> hasStagedChanges w then ([], Failed NoStagedChanges)
          else (case getStagedDiff w of
                  None \<Rightarrow> ([], Failed GitDiffFailed)
                | Some d \<Rightarrow>
                    (let commitStyle = (case CLIOptions.style options of
                                          Some s \<Rightarrow> s
                                        | None \<Rightarrow> defaultStyle (git config));
                         context = \<lparr>AIPromptContext.diff = d, style = commitStyle,
                                    repoName = getRepoName w,
                                    branch = (case getCurrentBranch w of
                                                Some b \<Rightarrow> Some b
                                              | None \<Rightarrow> Some ''main''),
                                    previousCommits = (case getRecentCommits w of
                                                         Some cs \<Rightarrow> Some cs
                                                       | None \<Rightarrow> Some [])\<rparr>;
                         (calls, generated) = aiGenerateCommitMessage aiConfig context (createCompletion w)
                     in (case generated of
                           Inl e \<Rightarrow> (calls, Failed e)
                         | Inr result \<Rightarrow>
                             if dryRun options then (calls, DryRun)
                             else if interactive options \<or> (\<not> commit options \<and> \<not> dryRun options)
                             then (case promptForAction w of
                                     ActCommit \<Rightarrow>
                                       (let (evs, out) = performCommit (title (message result)) w
                                        in (calls @ evs, out))
                                   | ActEdit \<Rightarrow>
                                       (case promptForEdit (title (message result)) w of
                                          Some edited \<Rightarrow>
                                            (let (evs, out) = performCommit edited w
                                             in (calls @ evs, out))
                                        | None \<Rightarrow> (calls, Done))
                                   | ActRegenerate \<Rightarrow>
                                       (let (evs, out) = generateCommitMessage config
                                                           (options\<lparr>interactive := True\<rparr>) ws
                                        in (calls @ evs, out))
                                   | ActCancel \<Rightarrow> (calls, Cancelled))
                             else if commit options
                             then (let (evs, out) = performCommit (title (message result)) w
                                   in (calls @ evs, out))
                             else (calls, Done)))))"

subsection \<open>Notions used to state the properties\<close>

text \<open>
  What a regular expression denotes, independently of the matcher: \<open>denotes n r u v\<close> holds
  when \<open>r\<close> can match the text \<open>u\<close> in front of the remaining input \<open>v\<close>, in an input of
  length \<open>n\<close>.
\<close>

fun denotes :: "nat \<Rightarrow> regex \<Rightarrow> string \<Rightarrow> string \<Rightarrow> bool" where
  "denotes n Bol u v \<longleftrightarrow> u = [] \<and> length v = n"
| "denotes n Eol u v \<longleftrightarrow> u = [] \<and> v = []"
| "denotes n (Atom a) u v \<longleftrightarrow> (\<exists>c. u = [c] \<and> accepts a c)"
| "denotes n (Lit t) u v \<longleftrightarrow> u = t"
| "denotes n (Seq r1 r2) u v \<longleftrightarrow>
     (\<exists>u1 u2. u = u1 @ u2 \<and> denotes n r1 u1 (u2 @ v) \<and> denotes n r2 u2 v)"
| "denotes n (Alt r1 r2) u v \<longleftrightarrow> denotes n r1 u v \<or> denotes n r2 u v"
| "denotes n (Opt r) u v \<longleftrightarrow> u = [] \<or> denotes n r u v"
| "denotes n (Star a) u v \<longleftrightarrow> (\<forall>c \<in> set u. accepts a c)"
| "denotes n (StarLazy a) u v \<longleftrightarrow> (\<forall>c \<in> set u. accepts a c)"
| "denotes n (Plus a) u v \<longleftrightarrow> u \<noteq> [] \<and> (\<forall>c \<in> set u. accepts a c)"
| "denotes n (Group i r) u v \<longleftrightarrow> denotes n r u v"

text \<open>The text of an optional string, empty when it is absent.\<close>

definition orEmpty :: "string option \<Rightarrow> string" where
  "orEmpty x = (case x of None \<Rightarrow> [] | Some s \<Rightarrow> s)"

text \<open>
  The letters \<open>a\<close> to \<open>z\<close>, and the lower-case letters among the code units below 256: these,
  the micro sign, and the letters from sharp s to y with diaeresis except the division
  sign.
\<close>

definition isAsciiLower :: "char \<Rightarrow> bool" where
  "isAsciiLower c \<longleftrightarrow> (97::nat) \<le> of_char c \<and> of_char c \<le> (122::nat)"

definition isLowercaseLetter :: "char \<Rightarrow> bool" where
  "isLowercaseLetter c \<longleftrightarrow>
     (let n = (of_char c :: nat)
      in (97 \<le> n \<and> n \<le> 122) \<or> n = 181 \<or> (223 \<le> n \<and> n \<le> 246) \<or> (248 \<le> n \<and> n \<le> 255))"

text \<open>
  The score as the specification words it, a sum of decimal fractions capped at 1, for a
  given reading \<open>lower\<close> of "lower-case letter".
\<close>

definition confidenceFormula :: "(char \<Rightarrow> bool) \<Rightarrow> string \<Rightarrow> string option \<Rightarrow> rat" where
  "confidenceFormula lower t b =
     min 1 (1 / 2
            + (if 10 < length t \<and> length t \<le> 50 then 2 / 10 else 0)
            + (if (case t of [] \<Rightarrow> False | c # cs \<Rightarrow> lower c) then 1 / 10 else 0)
            + (if \<not> endsWith t ''.'' then 1 / 10 else 0)
            + (if CHR '':'' \<in> set t then 1 / 10 else 0)
            + (if 20 < length (orEmpty b) then 1 / 10 else 0))"

text \<open>
  The same sum in binary64, in the order of the source: to 0.5 are added 0.2 when the first
  condition holds and then 0.1 for each of the four others that holds, every addition
  rounded, and the result is capped at 1.
\<close>

definition addWhen :: "bool \<Rightarrow> double \<Rightarrow> double \<Rightarrow> double" where
  "addWhen c x y = (if c then dadd x y else x)"

definition roundedSum :: "bool \<Rightarrow> bool \<Rightarrow> bool \<Rightarrow> bool \<Rightarrow> bool \<Rightarrow> double" where
  "roundedSum c1 c2 c3 c4 c5 =
     dmin (addWhen c5 (addWhen c4 (addWhen c3 (addWhen c2 (addWhen c1 lit_0_5 lit_0_2)
             lit_0_1) lit_0_1) lit_0_1) lit_0_1) lit_1_0"

text \<open>
  The cleanup as the specification words it, on the text itself: the opening delimiter of
  a fenced block is three backticks and what follows them up to the first line break,
  that line break included; the closing delimiter is a line break and three backticks at
  the end; then the backticks at the front and those at the end go.
\<close>

definition stripOpeningFence :: "string \<Rightarrow> string" where
  "stripOpeningFence s =
     (if prefix ''```'' s \<and> CHR 0x0A \<in> set (drop 3 s)
      then tl (dropWhile (\<lambda>c. c \<noteq> CHR 0x0A) (drop 3 s))
      else s)"

definition stripClosingFence :: "string \<Rightarrow> string" where
  "stripClosingFence s = (if suffix ''\<newline>```'' s then take (length s - 4) s else s)"

definition stripBackticks :: "string \<Rightarrow> string" where
  "stripBackticks s =
     rev (dropWhile (\<lambda>c. c = CHR ''`'') (rev (dropWhile (\<lambda>c. c = CHR ''`'') s)))"

definition cleanedText :: "string \<Rightarrow> string" where
  "cleanedText content = stripBackticks (stripClosingFence (stripOpeningFence (trim content)))"





text \<open>
  The conventional format as the specification words it: each of the type, the scope and
  the \<open>!\<close> is left out exactly when it is absent from the message, whatever the others
  are.
\<close>

definition conventionalAsClaimed :: "CommitMessage \<Rightarrow> string" where
  "conventionalAsClaimed m =
     (let prefix' = orEmpty (type m)
                    @ (if orEmpty (scope m) = [] then [] else ''('' @ orEmpty (scope m) @ '')'')
                    @ (if breaking m = Some True then ''!'' else [])
      in (if prefix' = [] then [] else prefix' @ '': '')
         @ title m
         @ (if orEmpty (body m) = [] then [] else ''\<newline>\<newline>'' @ orEmpty (body m))
         @ (if orEmpty (footer m) = [] then [] else ''\<newline>\<newline>'' @ orEmpty (footer m)))"

text \<open>The eleven recognised type tags.\<close>

definition commitTypes :: "string list" where
  "commitTypes = [''feat'', ''fix'', ''docs'', ''style'', ''refactor'', ''test'', ''chore'', ''perf'',
                  ''ci'', ''build'', ''revert'']"

text \<open>One entry of the files-changed section.\<close>

definition renderFileChange :: "GitFile \<Rightarrow> string" where
  "renderFileChange f =
     statusText (status f) @ '': '' @ path f
     @ '' (+'' @ numberToString (GitFile.insertions f)
     @ ''/-'' @ numberToString (GitFile.deletions f) @ '')''"

section \<open>Properties\<close>

subsection \<open>String primitives\<close>

lemma lastIndexOf_ge: "- 1 \<le> lastIndexOf s c"
  by (induction s) (auto simp: Let_def)

lemma lastIndexOf_lt: "lastIndexOf s c < int (length s)"
  by (induction s) (auto simp: Let_def)

lemma lastIndexOf_hit:
  "0 \<le> lastIndexOf s c \<Longrightarrow> s = take (nat (lastIndexOf s c)) s @ c # drop (Suc (nat (lastIndexOf s c))) s"
proof (induction s)
  case Nil
  then show ?case by simp
next
  case (Cons x xs)
  show ?case
  proof (cases "0 \<le> lastIndexOf xs c")
    case True
    then have "nat (lastIndexOf xs c + 1) = Suc (nat (lastIndexOf xs c))" by simp
    with True Cons.IH show ?thesis by (simp add: Let_def)
  next
    case False
    with Cons.prems show ?thesis by (auto simp: Let_def split: if_splits)
  qed
qed

lemma split_nonempty: "split s c \<noteq> []"
  by (induction s) (auto split: list.splits)

lemma split_append: "split (u @ c # v) c = split u c @ split v c"
  by (induction u) (auto split: list.splits simp: split_nonempty)

lemma join_cons: "ls \<noteq> [] \<Longrightarrow> join (l # ls) sep = l @ sep @ join ls sep"
  by (cases ls) auto

lemma join_split: "join (split s c) [c] = s"
proof (induction s)
  case Nil
  show ?case by simp
next
  case (Cons x xs)
  show ?case
  proof (cases "x = c")
    case True
    with Cons.IH show ?thesis by (simp add: join_cons split_nonempty)
  next
    case False
    obtain l ls where sp: "split xs c = l # ls"
      using split_nonempty [of xs c] by (cases "split xs c") auto
    with Cons.IH False show ?thesis by (cases ls) auto
  qed
qed

lemma substring_0: "0 \<le> b \<Longrightarrow> substring s 0 b = take (nat b) s"
  by (auto simp: substring_def Let_def min_def max_def)

lemma substring_0_neg: "b \<le> 0 \<Longrightarrow> substring s 0 b = []"
  by (auto simp: substring_def Let_def min_def max_def)

lemma whole_lines_prefix:
  assumes "s = u @ c # v"
  shows "\<exists>m < length (split s c). u = join (take m (split s c)) [c]"
proof -
  have "length (split u c) < length (split s c)"
    using assms split_nonempty [of v c] by (simp add: split_append)
  moreover have "join (take (length (split u c)) (split s c)) [c] = u"
    using assms by (simp add: split_append join_split)
  ultimately show ?thesis by metis
qed

lemma trim_empty_iff: "trim s = [] \<longleftrightarrow> (\<forall>c \<in> set s. isWhiteSpace c)"
proof
  assume e: "trim s = []"
  have "dropWhile isWhiteSpace s = []"
  proof (rule ccontr)
    assume ne: "dropWhile isWhiteSpace s \<noteq> []"
    then have h: "\<not> isWhiteSpace (hd (dropWhile isWhiteSpace s))" by (rule hd_dropWhile)
    from e have "\<forall>x \<in> set (dropWhile isWhiteSpace s). isWhiteSpace x"
      by (simp add: trim_def dropWhile_eq_Nil_conv)
    with ne h show False by (metis hd_in_set)
  qed
  then show "\<forall>c \<in> set s. isWhiteSpace c" by (simp add: dropWhile_eq_Nil_conv)
next
  assume "\<forall>c \<in> set s. isWhiteSpace c"
  then have d: "dropWhile isWhiteSpace s = []" by (metis dropWhile_eq_Nil_conv)
  show "trim s = []" unfolding trim_def d by simp
qed

lemma split_first: "\<exists>ls. split s c = takeWhile (\<lambda>x. x \<noteq> c) s # ls"
  by (induction s) (auto split: list.splits)

subsection \<open>Truncation keeps whole lines\<close>

text \<open>
  C1. For every diff text and every maximum length \<open>n\<close>: a diff of length at most \<open>n\<close> is
  embedded unchanged. A longer one is cut at a position \<open>k \<le> n\<close> that is the start of the
  input or one of its line feeds; what is kept consists of leading lines of the input, each
  whole and strictly fewer than all of them, and is followed by a line break and the marker
  \<^verbatim>\<open>... (diff truncated)\<close>. The result is never longer than \<open>n\<close> plus the length of the
  marker with its line break, and for \<open>n > 0\<close> not longer than \<open>n\<close> plus the length of the
  bare marker.
\<close>

theorem truncateDiff_whole_lines:
  fixes n :: nat
  shows "(length d \<le> n \<longrightarrow> truncateDiff d (int n) = d) \<and>
         (n < length d \<longrightarrow>
            (\<exists>k m. k \<le> n \<and> (k = 0 \<or> d ! k = CHR 0x0A) \<and>
                   m < length (split d CHR 0x0A) \<and>
                   take k d = join (take m (split d CHR 0x0A)) [CHR 0x0A] \<and>
                   truncateDiff d (int n) = take k d @ ''\<newline>... (diff truncated)'') \<and>
            length (truncateDiff d (int n)) \<le> n + length ''\<newline>... (diff truncated)'' \<and>
            (0 < n \<longrightarrow> length (truncateDiff d (int n)) \<le> n + length ''... (diff truncated)''))"
proof (intro conjI impI)
  assume "length d \<le> n"
  then show "truncateDiff d (int n) = d" by (simp add: truncateDiff_def)
next
  assume big: "n < length d"
  define t where "t = take n d"
  define i where "i = lastIndexOf t CHR 0x0A"
  have td: "truncateDiff d (int n) = substring t 0 i @ ''\<newline>... (diff truncated)''"
    using big by (simp add: truncateDiff_def substring_0 t_def i_def Let_def)
  have il: "i < int n" using lastIndexOf_lt [of t "CHR 0x0A"] big by (simp add: i_def t_def)
  have cut: "\<exists>k m. k \<le> n \<and> (0 < n \<longrightarrow> k < n) \<and> (k = 0 \<or> d ! k = CHR 0x0A) \<and>
                   m < length (split d CHR 0x0A) \<and>
                   take k d = join (take m (split d CHR 0x0A)) [CHR 0x0A] \<and>
                   substring t 0 i = take k d"
  proof (cases "0 \<le> i")
    case True
    define k where "k = nat i"
    have kn: "k < n" using il True by (simp add: k_def)
    from True have "t = take k t @ CHR 0x0A # drop (Suc k) t"
      unfolding i_def k_def by (rule lastIndexOf_hit)
    moreover have tk: "take k t = take k d" using kn by (simp add: t_def min_absorb1)
    ultimately have d: "d = take k d @ CHR 0x0A # (drop (Suc k) t @ drop n d)"
      by (metis append_take_drop_id t_def append.assoc append_Cons)
    have "length (take k d) = k" using kn big by simp
    with d have nl: "d ! k = CHR 0x0A" by (metis nth_append_length)
    from whole_lines_prefix [OF d] obtain m where
      "m < length (split d CHR 0x0A)" "take k d = join (take m (split d CHR 0x0A)) [CHR 0x0A]"
      by blast
    moreover have "substring t 0 i = take k d" using True tk by (simp add: substring_0 k_def)
    ultimately show ?thesis using kn nl by (intro exI [of _ k] exI [of _ m]) simp
  next
    case False
    then have "substring t 0 i = take 0 d" by (simp add: substring_0_neg)
    moreover have "0 < length (split d CHR 0x0A)" using split_nonempty by simp
    ultimately show ?thesis by (intro exI [of _ 0]) simp
  qed
  then obtain k m where k: "k \<le> n" "0 < n \<longrightarrow> k < n" "k = 0 \<or> d ! k = CHR 0x0A"
    and m: "m < length (split d CHR 0x0A)" "take k d = join (take m (split d CHR 0x0A)) [CHR 0x0A]"
    and s: "substring t 0 i = take k d"
    by blast
  have "truncateDiff d (int n) = take k d @ ''\<newline>... (diff truncated)''"
    using td s by simp
  with k(1,3) m
  show "\<exists>k m. k \<le> n \<and> (k = 0 \<or> d ! k = CHR 0x0A) \<and>
                   m < length (split d CHR 0x0A) \<and>
                   take k d = join (take m (split d CHR 0x0A)) [CHR 0x0A] \<and>
                   truncateDiff d (int n) = take k d @ ''\<newline>... (diff truncated)''"
    by blast
  have len: "length (truncateDiff d (int n)) = k + 21"
    using td s k(1) big by simp
  show "length (truncateDiff d (int n)) \<le> n + length ''\<newline>... (diff truncated)''"
    using len k(1) by simp
  show "length (truncateDiff d (int n)) \<le> n + length ''... (diff truncated)''" if "0 < n"
    using that len k(2) by simp
qed

text \<open>
  The theorem at a short diff with the default bound, and at a three-line diff cut after
  its first line.
\<close>

theorem truncateDiff_whole_lines_witness:
  "truncateDiff ''ab'' 3000 = ''ab'' \<and>
   truncateDiff ''ab\<newline>cd\<newline>ef'' 5 = ''ab\<newline>... (diff truncated)'' \<and>
   length (truncateDiff ''ab\<newline>cd\<newline>ef'' 5) \<le> 5 + length ''... (diff truncated)''"
proof -
  have short: "length ''ab'' \<le> (3000::nat)" by simp
  have long: "(5::nat) < length ''ab\<newline>cd\<newline>ef''" "(0::nat) < 5" by simp_all
  from truncateDiff_whole_lines [of "''ab''" 3000] short
  have 1: "truncateDiff ''ab'' 3000 = ''ab''" by simp
  from truncateDiff_whole_lines [of "''ab\<newline>cd\<newline>ef''" 5] long
  have 2: "length (truncateDiff ''ab\<newline>cd\<newline>ef'' 5) \<le> 5 + length ''... (diff truncated)''"
    by simp
  have 3: "truncateDiff ''ab\<newline>cd\<newline>ef'' 5 = ''ab\<newline>... (diff truncated)''"
    by (simp add: truncateDiff_def substring_def)
  from 1 2 3 show ?thesis by blast
qed

subsection \<open>The matcher against what a pattern denotes\<close>

text \<open>A pattern that starts with \<open>^\<close> can only match at the first position.\<close>

lemma search_Bol_later: "length s < n \<Longrightarrow> search n (Seq Bol r) i s = None"
  by (induction s arbitrary: i) auto

lemma exec_Bol:
  "exec (Seq Bol r) s = run (length s) r s Map.empty (\<lambda>s' g. Some (0, s', g))"
  by (cases s) (auto simp: exec_def search_Bol_later split: option.splits)

lemma greedy_base: "k v \<noteq> None \<Longrightarrow> greedy a v k \<noteq> None"
  by (cases v) (auto split: option.splits)

lemma greedy_complete:
  "\<forall>c \<in> set u. accepts a c \<Longrightarrow> k v \<noteq> None \<Longrightarrow> greedy a (u @ v) k \<noteq> None"
  by (induction u) (auto simp: greedy_base split: option.splits)

lemma lazy_complete:
  "\<forall>c \<in> set u. accepts a c \<Longrightarrow> k v \<noteq> None \<Longrightarrow> lazy a (u @ v) k \<noteq> None"
proof (induction u)
  case Nil
  then show ?case by (cases v) (auto split: option.splits)
next
  case (Cons c u)
  then show ?case by (auto split: option.splits)
qed



lemma run_complete:
  "denotes n r u v \<Longrightarrow> \<forall>g'. k v g' \<noteq> None \<Longrightarrow> run n r (u @ v) g k \<noteq> None"
proof (induction r arbitrary: u v g k)
  case (Seq r1 r2)
  from Seq.prems(1) obtain u1 u2 where u: "u = u1 @ u2"
    and d1: "denotes n r1 u1 (u2 @ v)" and d2: "denotes n r2 u2 v" by auto
  have "\<forall>g'. run n r2 (u2 @ v) g' k \<noteq> None"
    using Seq.IH(2) d2 Seq.prems(2) by blast
  with Seq.IH(1) [where u = u1 and v = "u2 @ v" and g = g
                     and k = "\<lambda>s' g'. run n r2 s' g' k"] d1
  have "run n r1 (u1 @ u2 @ v) g (\<lambda>s' g'. run n r2 s' g' k) \<noteq> None"
    by simp
  then show ?case by (simp add: u)
next
  case (Alt r1 r2)
  have a: "denotes n r1 u v \<Longrightarrow> run n r1 (u @ v) g k \<noteq> None"
    using Alt.IH(1) [where u = u and v = v and g = g and k = k] Alt.prems(2) by simp
  have b: "denotes n r2 u v \<Longrightarrow> run n r2 (u @ v) g k \<noteq> None"
    using Alt.IH(2) [where u = u and v = v and g = g and k = k] Alt.prems(2) by simp
  from Alt.prems(1) a b show ?case by (auto split: option.splits)
next
  case (Opt r)
  have a: "denotes n r u v \<Longrightarrow> run n r (u @ v) g k \<noteq> None"
    using Opt.IH [where u = u and v = v and g = g and k = k] Opt.prems(2) by simp
  from Opt.prems a show ?case by (auto split: option.splits)
next
  case (Star a)
  then show ?case by (simp add: greedy_complete)
next
  case (StarLazy a)
  then show ?case by (simp add: lazy_complete)
next
  case (Plus a)
  then obtain c cs where "u = c # cs" by (cases u) auto
  with Plus show ?case by (simp add: greedy_complete)
next
  case (Group i r)
  have "\<forall>g'. (\<lambda>s' g'. k s' (g'(i \<mapsto> take (length (u @ v) - length s') (u @ v)))) v g' \<noteq> None"
    using Group.prems(2) by simp
  moreover have "denotes n r u v" using Group.prems(1) by simp
  ultimately have "run n r (u @ v) g
      (\<lambda>s' g'. k s' (g'(i \<mapsto> take (length (u @ v) - length s') (u @ v)))) \<noteq> None"
    using Group.IH [where u = u and v = v and g = g
                      and k = "\<lambda>s' g'. k s' (g'(i \<mapsto> take (length (u @ v) - length s') (u @ v)))"]
    by simp
  then show ?case by simp
qed auto


lemma greedy_det:
  "(\<And>c cs. accepts a c \<Longrightarrow> k (c # cs) = None) \<Longrightarrow> greedy a s k = k (dropWhile (accepts a) s)"
  by (induction s) (auto split: option.splits)

subsection \<open>Confidence score\<close>

lemma test_lowercase:
  "test (Seq Bol (Atom (Range CHR ''a'' CHR ''z''))) t
     \<longleftrightarrow> (case t of [] \<Rightarrow> False | c # cs \<Rightarrow> isAsciiLower c)"
  by (simp add: test_def exec_Bol isAsciiLower_def split: list.splits)

text \<open>
  The literals are the binary64 values nearest to the decimal fractions: the distance is
  below half a unit in the last place, a unit being \<open>2 ^ - 55\<close> at 0.2 and \<open>2 ^ - 56\<close>
  at 0.1.
\<close>

lemma literals_nearest:
  "valof lit_0_5 = 1 / 2"
  "\<bar>valof lit_0_2 - 2 / 10\<bar> < 1 / 2 ^ 56"
  "\<bar>valof lit_0_1 - 1 / 10\<bar> < 1 / 2 ^ 57"
  "valof lit_1_0 = 1"
  by (simp_all add: valof_def lit_0_5_def lit_0_2_def lit_0_1_def lit_1_0_def)

text \<open>
  The additions the score can go through, and the cap. The sums are 0.6, 0.7,
  0.7999999999999999, 0.8999999999999999, 0.9999999999999999 and 1.0999999999999999.
\<close>

lemma dadd_steps:
  "dadd lit_0_5 lit_0_2 = Double 6305039478318694 (- 53)"
  "dadd lit_0_5 lit_0_1 = Double 5404319552844595 (- 53)"
  "dadd (Double 5404319552844595 (- 53)) lit_0_1 = Double 6305039478318694 (- 53)"
  "dadd (Double 6305039478318694 (- 53)) lit_0_1 = Double 7205759403792793 (- 53)"
  "dadd (Double 7205759403792793 (- 53)) lit_0_1 = Double 8106479329266892 (- 53)"
  "dadd (Double 8106479329266892 (- 53)) lit_0_1 = Double 9007199254740991 (- 53)"
  "dadd (Double 9007199254740991 (- 53)) lit_0_1 = Double 4953959590107545 (- 52)"
  by code_simp+

lemma dmin_steps:
  "dmin lit_0_5 lit_1_0 = lit_0_5"
  "dmin (Double 5404319552844595 (- 53)) lit_1_0 = Double 5404319552844595 (- 53)"
  "dmin (Double 6305039478318694 (- 53)) lit_1_0 = Double 6305039478318694 (- 53)"
  "dmin (Double 7205759403792793 (- 53)) lit_1_0 = Double 7205759403792793 (- 53)"
  "dmin (Double 8106479329266892 (- 53)) lit_1_0 = Double 8106479329266892 (- 53)"
  "dmin (Double 9007199254740991 (- 53)) lit_1_0 = Double 9007199254740991 (- 53)"
  "dmin (Double 4953959590107545 (- 52)) lit_1_0 = lit_1_0"
  by (simp_all add: dmin_def valof_def lit_0_5_def lit_1_0_def)

lemmas roundedSum_eval = roundedSum_def addWhen_def dadd_steps dmin_steps

lemma roundedSum_le_1: "valof (roundedSum c1 c2 c3 c4 c5) \<le> 1"
  by (cases c1; cases c2; cases c3; cases c4; cases c5;
      simp add: roundedSum_eval; simp add: valof_def lit_0_5_def lit_1_0_def)

lemma roundedSum_close:
  "\<bar>valof (roundedSum c1 c2 c3 c4 c5)
    - min 1 (1 / 2 + (if c1 then 2 / 10 else 0) + (if c2 then 1 / 10 else 0)
             + (if c3 then 1 / 10 else 0) + (if c4 then 1 / 10 else 0)
             + (if c5 then 1 / 10 else 0))\<bar> \<le> 1 / 2 ^ 53"
  by (cases c1; cases c2; cases c3; cases c4; cases c5;
      simp add: roundedSum_eval; simp add: valof_def lit_0_5_def lit_1_0_def)

lemma roundedSum_mono1:
  "valof (roundedSum False c2 c3 c4 c5) \<le> valof (roundedSum True c2 c3 c4 c5)"
  by (cases c2; cases c3; cases c4; cases c5;
      simp add: roundedSum_eval; simp add: valof_def lit_0_5_def lit_1_0_def)

lemma roundedSum_mono2:
  "valof (roundedSum c1 False c3 c4 c5) \<le> valof (roundedSum c1 True c3 c4 c5)"
  by (cases c1; cases c3; cases c4; cases c5;
      simp add: roundedSum_eval; simp add: valof_def lit_0_5_def lit_1_0_def)

lemma roundedSum_mono3:
  "valof (roundedSum c1 c2 False c4 c5) \<le> valof (roundedSum c1 c2 True c4 c5)"
  by (cases c1; cases c2; cases c4; cases c5;
      simp add: roundedSum_eval; simp add: valof_def lit_0_5_def lit_1_0_def)

lemma roundedSum_mono4:
  "valof (roundedSum c1 c2 c3 False c5) \<le> valof (roundedSum c1 c2 c3 True c5)"
  by (cases c1; cases c2; cases c3; cases c5;
      simp add: roundedSum_eval; simp add: valof_def lit_0_5_def lit_1_0_def)

lemma roundedSum_mono5:
  "valof (roundedSum c1 c2 c3 c4 False) \<le> valof (roundedSum c1 c2 c3 c4 True)"
  by (cases c1; cases c2; cases c3; cases c4;
      simp add: roundedSum_eval; simp add: valof_def lit_0_5_def lit_1_0_def)

lemma roundedSum_mono:
  assumes "c1 \<longrightarrow> d1" "c2 \<longrightarrow> d2" "c3 \<longrightarrow> d3" "c4 \<longrightarrow> d4" "c5 \<longrightarrow> d5"
  shows "valof (roundedSum c1 c2 c3 c4 c5) \<le> valof (roundedSum d1 d2 d3 d4 d5)"
proof -
  have "valof (roundedSum c1 c2 c3 c4 c5) \<le> valof (roundedSum d1 c2 c3 c4 c5)"
    using assms(1) roundedSum_mono1 [of c2 c3 c4 c5] by (cases c1; cases d1) simp_all
  also have "\<dots> \<le> valof (roundedSum d1 d2 c3 c4 c5)"
    using assms(2) roundedSum_mono2 [of d1 c3 c4 c5] by (cases c2; cases d2) simp_all
  also have "\<dots> \<le> valof (roundedSum d1 d2 d3 c4 c5)"
    using assms(3) roundedSum_mono3 [of d1 d2 c4 c5] by (cases c3; cases d3) simp_all
  also have "\<dots> \<le> valof (roundedSum d1 d2 d3 d4 c5)"
    using assms(4) roundedSum_mono4 [of d1 d2 d3 c5] by (cases c4; cases d4) simp_all
  also have "\<dots> \<le> valof (roundedSum d1 d2 d3 d4 d5)"
    using assms(5) roundedSum_mono5 [of d1 d2 d3 d4] by (cases c5; cases d5) simp_all
  finally show ?thesis .
qed

lemma calculateConfidence_roundedSum:
  "calculateConfidence t b =
     roundedSum (10 < length t \<and> length t \<le> 50)
       (case t of [] \<Rightarrow> False | c # cs \<Rightarrow> isAsciiLower c)
       (\<not> endsWith t ''.'') (CHR '':'' \<in> set t) (20 < length (orEmpty b))"
  by (cases b)
     (simp_all add: calculateConfidence_def roundedSum_def addWhen_def test_lowercase
        str_includes_def orEmpty_def Let_def)

text \<open>
  C4, as amended. For every title and optional body the confidence is the binary64 sum
  \<open>min (0.5 + 0.2 [10 < length \<le> 50] + 0.1 [first character in a..z]
  + 0.1 [no final period] + 0.1 [a colon anywhere] + 0.1 [body longer than 20]) 1\<close>,
  added in this order, each addition rounded to the nearest binary64 value. It is within
  \<open>2 ^ - 53\<close> of the same sum of decimal fractions, it is at most 1, and it does not
  decrease when each condition that held still holds.
\<close>

theorem calculateConfidence_formula:
  "calculateConfidence t b =
     roundedSum (10 < length t \<and> length t \<le> 50)
       (case t of [] \<Rightarrow> False | c # cs \<Rightarrow> isAsciiLower c)
       (\<not> endsWith t ''.'') (CHR '':'' \<in> set t) (20 < length (orEmpty b)) \<and>
   \<bar>valof (calculateConfidence t b) - confidenceFormula isAsciiLower t b\<bar> \<le> 1 / 2 ^ 53 \<and>
   valof (calculateConfidence t b) \<le> 1 \<and>
   (\<forall>t' b'.
      ((10 < length t \<and> length t \<le> 50) \<longrightarrow> (10 < length t' \<and> length t' \<le> 50)) \<and>
      ((case t of [] \<Rightarrow> False | c # cs \<Rightarrow> isAsciiLower c) \<longrightarrow>
         (case t' of [] \<Rightarrow> False | c # cs \<Rightarrow> isAsciiLower c)) \<and>
      (\<not> endsWith t ''.'' \<longrightarrow> \<not> endsWith t' ''.'') \<and>
      (CHR '':'' \<in> set t \<longrightarrow> CHR '':'' \<in> set t') \<and>
      (20 < length (orEmpty b) \<longrightarrow> 20 < length (orEmpty b'))
      \<longrightarrow> valof (calculateConfidence t b) \<le> valof (calculateConfidence t' b'))"
proof -
  note eq = calculateConfidence_roundedSum
  have close: "\<bar>valof (calculateConfidence t b) - confidenceFormula isAsciiLower t b\<bar> \<le> 1 / 2 ^ 53"
    unfolding eq confidenceFormula_def by (rule roundedSum_close)
  have bound: "valof (calculateConfidence t b) \<le> 1"
    unfolding eq by (rule roundedSum_le_1)
  have mono: "valof (calculateConfidence t b) \<le> valof (calculateConfidence t' b')"
    if "((10 < length t \<and> length t \<le> 50) \<longrightarrow> (10 < length t' \<and> length t' \<le> 50)) \<and>
        ((case t of [] \<Rightarrow> False | c # cs \<Rightarrow> isAsciiLower c) \<longrightarrow>
           (case t' of [] \<Rightarrow> False | c # cs \<Rightarrow> isAsciiLower c)) \<and>
        (\<not> endsWith t ''.'' \<longrightarrow> \<not> endsWith t' ''.'') \<and>
        (CHR '':'' \<in> set t \<longrightarrow> CHR '':'' \<in> set t') \<and>
        (20 < length (orEmpty b) \<longrightarrow> 20 < length (orEmpty b'))" for t' b'
    unfolding eq [of t b] eq [of t' b']
    by (rule roundedSum_mono) (use that in blast)+
  from eq [of t b] close bound mono show ?thesis by blast
qed

text \<open>
  The theorem at a title that meets none of the conditions, at one, with a body, that meets
  all five, and at one that meets the four that bear on the title.
\<close>

theorem calculateConfidence_formula_witness:
  "valof (calculateConfidence ''Fix.'' None) = 1 / 2 \<and>
   valof (calculateConfidence ''fix: handle edge case'' (Some ''Details of the change, at length.'')) = 1 \<and>
   valof (calculateConfidence ''feat: add x'' None) = 9007199254740991 / 2 ^ 53 \<and>
   valof (calculateConfidence ''Fix.'' None) \<le> valof (calculateConfidence ''feat: add x'' None)"
proof -
  have a: "\<not> (10 < length ''Fix.'' \<and> length ''Fix.'' \<le> 50)"
    and b: "\<not> (case ''Fix.'' of [] \<Rightarrow> False | c # cs \<Rightarrow> isAsciiLower c)"
    and c: "endsWith ''Fix.'' ''.''"
    and d: "CHR '':'' \<notin> set ''Fix.''"
    and e: "\<not> 20 < length (orEmpty None)"
    by (simp_all add: isAsciiLower_def endsWith_def suffix_to_prefix orEmpty_def)
  have f: "10 < length ''fix: handle edge case'' \<and> length ''fix: handle edge case'' \<le> 50"
    and g: "(case ''fix: handle edge case'' of [] \<Rightarrow> False | c # cs \<Rightarrow> isAsciiLower c)"
    and h: "\<not> endsWith ''fix: handle edge case'' ''.''"
    and i: "CHR '':'' \<in> set ''fix: handle edge case''"
    and j: "20 < length (orEmpty (Some ''Details of the change, at length.''))"
    by (simp_all add: isAsciiLower_def endsWith_def suffix_to_prefix orEmpty_def)
  have k: "10 < length ''feat: add x'' \<and> length ''feat: add x'' \<le> 50"
    and l: "(case ''feat: add x'' of [] \<Rightarrow> False | c # cs \<Rightarrow> isAsciiLower c)"
    and m: "\<not> endsWith ''feat: add x'' ''.''"
    and n: "CHR '':'' \<in> set ''feat: add x''"
    by (simp_all add: isAsciiLower_def endsWith_def suffix_to_prefix orEmpty_def)
  note lo = calculateConfidence_formula [of "''Fix.''" None]
  note hi = calculateConfidence_formula
              [of "''fix: handle edge case''" "Some ''Details of the change, at length.''"]
  note mid = calculateConfidence_formula [of "''feat: add x''" None]
  have 1: "valof (calculateConfidence ''Fix.'' None) = 1 / 2"
  proof -
    have "calculateConfidence ''Fix.'' None = roundedSum False False False False False"
      using lo a b c d e by simp
    then show ?thesis by (simp add: roundedSum_eval, simp add: valof_def lit_0_5_def)
  qed
  have 2: "valof (calculateConfidence ''fix: handle edge case''
             (Some ''Details of the change, at length.'')) = 1"
  proof -
    have "calculateConfidence ''fix: handle edge case''
            (Some ''Details of the change, at length.'') = roundedSum True True True True True"
      using hi f g h i j by simp
    then show ?thesis by (simp add: roundedSum_eval, simp add: valof_def lit_1_0_def)
  qed
  have 3: "valof (calculateConfidence ''feat: add x'' None) = 9007199254740991 / 2 ^ 53"
  proof -
    have "calculateConfidence ''feat: add x'' None = roundedSum True True True True False"
      using mid k l m n e by simp
    then show ?thesis by (simp add: roundedSum_eval, simp add: valof_def)
  qed
  have 4: "valof (calculateConfidence ''Fix.'' None) \<le> valof (calculateConfidence ''feat: add x'' None)"
    using lo a b c d e by blast
  from 1 2 3 4 show ?thesis by blast
qed

text \<open>
  C4 as stated fails. The title \<^verbatim>\<open>feat: add x\<close> without a body meets four conditions; the
  decimal sum is \<open>0.5 + 0.2 + 0.1 + 0.1 + 0.1 = 1\<close>, and the source returns
  0.9999999999999999, one unit in the last place below. A title that is the single letter
  e with acute accent, a lower-case letter outside \<open>a..z\<close>, scores 0.6 where the decimal
  sum with the bonus for a lower-case first letter is 0.7.
\<close>

theorem calculateConfidence_exact_counterexample:
  "valof (calculateConfidence ''feat: add x'' None) = 9007199254740991 / 2 ^ 53 \<and>
   confidenceFormula isLowercaseLetter ''feat: add x'' None = 1 \<and>
   valof (calculateConfidence ''feat: add x'' None)
     \<noteq> confidenceFormula isLowercaseLetter ''feat: add x'' None \<and>
   isLowercaseLetter (CHR 0xE9) \<and>
   valof (calculateConfidence [CHR 0xE9] None) = 5404319552844595 / 2 ^ 53 \<and>
   confidenceFormula isLowercaseLetter [CHR 0xE9] None = 7 / 10"
proof -
  have "calculateConfidence ''feat: add x'' None = roundedSum True True True True False"
    unfolding calculateConfidence_roundedSum
    by (simp add: isAsciiLower_def endsWith_def suffix_to_prefix orEmpty_def)
  then have 1: "valof (calculateConfidence ''feat: add x'' None) = 9007199254740991 / 2 ^ 53"
    by (simp add: roundedSum_eval, simp add: valof_def)
  have 2: "confidenceFormula isLowercaseLetter ''feat: add x'' None = 1"
    by (simp add: confidenceFormula_def isLowercaseLetter_def endsWith_def suffix_to_prefix orEmpty_def)
  have 3: "isLowercaseLetter (CHR 0xE9)"
    by (simp add: isLowercaseLetter_def)
  have "calculateConfidence [CHR 0xE9] None = roundedSum False False True False False"
    unfolding calculateConfidence_roundedSum
    by (simp add: isAsciiLower_def endsWith_def suffix_to_prefix orEmpty_def)
  then have 4: "valof (calculateConfidence [CHR 0xE9] None) = 5404319552844595 / 2 ^ 53"
    by (simp add: roundedSum_eval, simp add: valof_def)
  have 5: "confidenceFormula isLowercaseLetter [CHR 0xE9] None = 7 / 10"
    by (simp add: confidenceFormula_def isLowercaseLetter_def endsWith_def suffix_to_prefix orEmpty_def)
  from 1 2 3 4 5 show ?thesis by simp
qed


subsection \<open>The cleanup on the text\<close>

text \<open>
  Each of the four replacements of the cleanup, run by the matcher, is the operation on the
  text that the specification describes; so is their composition.
\<close>

lemma greedy_always:
  "greedy a s (\<lambda>s'. Some (f s')) = Some (f (dropWhile (accepts a) s))"
  by (induction s) auto

lemma lazy_to_newline:
  "lazy AnyChar s (\<lambda>s'. case s' of [] \<Rightarrow> None | c # cs \<Rightarrow> if c = d then Some (f cs) else None)
     = (if d \<in> set s then Some (f (tl (dropWhile (\<lambda>c. c \<noteq> d) s))) else None)"
  by (induction s) auto

lemma replace_opening_fence:
  "replace s (seqs [Bol, Lit ''```'', StarLazy AnyChar, Atom (Chr CHR 0x0A)]) [] = stripOpeningFence s"
proof -
  have "exec (seqs [Bol, Lit ''```'', StarLazy AnyChar, Atom (Chr CHR 0x0A)]) s
          = (if prefix ''```'' s
             then lazy AnyChar (drop 3 s)
                    (\<lambda>s'. case s' of [] \<Rightarrow> None
                          | c # cs \<Rightarrow> if c = CHR 0x0A then Some (0, cs, Map.empty) else None)
             else None)"
    by (simp add: exec_Bol numeral_3_eq_3)
  then show ?thesis
    by (simp add: replace_def stripOpeningFence_def lazy_to_newline)
qed

lemma search_Lit_Eol:
  "t \<noteq> [] \<Longrightarrow>
   search n (Seq (Lit t) Eol) i s
     = (if suffix t s then Some (i + (length s - length t), [], Map.empty) else None)"
proof (induction s arbitrary: i)
  case Nil
  then show ?case by simp
next
  case (Cons c cs)
  have r: "run n (Seq (Lit t) Eol) (c # cs) Map.empty (\<lambda>s' g. Some (i, s', g))
             = (if t = c # cs then Some (i, [], Map.empty) else None)"
  proof (cases "t = c # cs")
    case True
    then show ?thesis by simp
  next
    case False
    have "\<not> (prefix t (c # cs) \<and> drop (length t) (c # cs) = [])"
    proof
      assume h: "prefix t (c # cs) \<and> drop (length t) (c # cs) = []"
      then obtain zs where z: "c # cs = t @ zs" by (auto simp: prefix_def)
      from h have "length (c # cs) \<le> length t" by simp
      with z have "zs = []" by (metis append_eq_conv_conj drop_all h)
      with z False show False by simp
    qed
    with False show ?thesis by auto
  qed
  show ?case
  proof (cases "t = c # cs")
    case True
    then show ?thesis using r by simp
  next
    case False
    then have s: "suffix t (c # cs) \<longleftrightarrow> suffix t cs" by (simp add: suffix_Cons)
    have "search n (Seq (Lit t) Eol) i (c # cs) = search n (Seq (Lit t) Eol) (Suc i) cs"
      using r False by (simp del: run.simps)
    also have "\<dots> = (if suffix t cs then Some (Suc i + (length cs - length t), [], Map.empty) else None)"
      using Cons by simp
    also have "\<dots> = (if suffix t (c # cs) then Some (i + (length (c # cs) - length t), [], Map.empty) else None)"
      using s by (auto dest: suffix_length_le)
    finally show ?thesis .
  qed
qed

lemma replace_closing_fence:
  "replace s (seqs [Lit ''\<newline>```'', Eol]) [] = stripClosingFence s"
  by (simp add: replace_def exec_def search_Lit_Eol stripClosingFence_def eval_nat_numeral
        del: search.simps)

lemma replace_leading_backticks:
  "replace s (seqs [Bol, Plus (Chr CHR ''`'')]) [] = dropWhile (\<lambda>c. c = CHR ''`'') s"
proof (cases s)
  case Nil
  then show ?thesis by (simp add: replace_def exec_Bol)
next
  case (Cons c cs)
  have a: "accepts (Chr CHR ''`'') = (\<lambda>c. c = CHR ''`'')" by auto
  show ?thesis
    using Cons by (simp add: replace_def exec_Bol greedy_always a)
qed

lemma stripEnd_Cons:
  "rev (dropWhile P (rev (c # cs)))
     = (if \<forall>x \<in> set (c # cs). P x then [] else c # rev (dropWhile P (rev cs)))"
  by (auto simp: dropWhile_append)

lemma take_stripEnd: "take (length (dropWhile P (rev s))) s = rev (dropWhile P (rev s))"
proof (induction s)
  case Nil
  then show ?case by simp
next
  case (Cons c cs)
  have "take (length (rev (dropWhile P (rev (c # cs))))) (c # cs) = rev (dropWhile P (rev (c # cs)))"
    unfolding stripEnd_Cons using Cons by simp
  then show ?case by simp
qed

lemma run_Plus_Eol:
  "run n (Seq (Plus (Chr d)) Eol) s Map.empty (\<lambda>s' g. Some (i, s', g))
     = (if s \<noteq> [] \<and> (\<forall>x \<in> set s. x = d) then Some (i, [], Map.empty) else None)"
proof (cases s)
  case Nil
  then show ?thesis by simp
next
  case (Cons c cs)
  have g: "greedy (Chr d) cs (\<lambda>s'. if s' = [] then Some (i, s', Map.empty) else None)
             = (if dropWhile (accepts (Chr d)) cs = [] then Some (i, [], Map.empty) else None)"
    by (subst greedy_det) auto
  show ?thesis
    using Cons g by (auto simp: dropWhile_eq_Nil_conv)
qed

lemma search_Plus_Eol:
  "search n (Seq (Plus (Chr d)) Eol) i s
     = (if s \<noteq> [] \<and> last s = d
        then Some (i + length (rev (dropWhile (\<lambda>c. c = d) (rev s))), [], Map.empty)
        else None)"
proof (induction s arbitrary: i)
  case Nil
  then show ?case by simp
next
  case (Cons c cs)
  note r = run_Plus_Eol [of n d "c # cs" i]
  show ?case
  proof (cases "\<forall>x \<in> set (c # cs). x = d")
    case True
    then have "last (c # cs) = d" by (metis last_in_set list.distinct(1))
    then show ?thesis
      using True r by (simp del: run.simps add: stripEnd_Cons)
  next
    case False
    have "search n (Seq (Plus (Chr d)) Eol) i (c # cs)
            = search n (Seq (Plus (Chr d)) Eol) (Suc i) cs"
      using r False by (auto simp del: run.simps)
    also have "\<dots> = (if cs \<noteq> [] \<and> last cs = d
        then Some (Suc i + length (rev (dropWhile (\<lambda>c. c = d) (rev cs))), [], Map.empty)
        else None)"
      by (rule Cons)
    also have "\<dots> = (if c # cs \<noteq> [] \<and> last (c # cs) = d
        then Some (i + length (rev (dropWhile (\<lambda>c. c = d) (rev (c # cs)))), [], Map.empty)
        else None)"
      using False unfolding stripEnd_Cons by auto
    finally show ?thesis .
  qed
qed

lemma stripEnd_id: "s = [] \<or> \<not> P (last s) \<Longrightarrow> rev (dropWhile P (rev s)) = s"
  by (cases s rule: rev_cases) auto

lemma replace_trailing_backticks:
  "replace s (seqs [Plus (Chr CHR ''`''), Eol]) [] = rev (dropWhile (\<lambda>c. c = CHR ''`'') (rev s))"
proof (cases "s \<noteq> [] \<and> last s = CHR ''`''")
  case True
  then show ?thesis
    by (simp add: replace_def exec_def search_Plus_Eol take_stripEnd del: search.simps)
next
  case False
  then have "rev (dropWhile (\<lambda>c. c = CHR ''`'') (rev s)) = s"
    by (intro stripEnd_id) auto
  then show ?thesis
    using False by (simp add: replace_def exec_def search_Plus_Eol del: search.simps)
qed

lemma cleanContent_cleanedText: "cleanContent content = cleanedText content"
  unfolding cleanContent_def cleanedText_def Let_def
    replace_opening_fence replace_closing_fence replace_leading_backticks
    replace_trailing_backticks stripBackticks_def ..

text \<open>
  A fenced block loses its fences and the language tag; without a line break after the
  opening fence only the backtick runs at both ends go; backticks inside the text stay.
\<close>

lemma cleanContent_examples:
  "cleanContent ''```\<newline>feat: add x\<newline>```'' = ''feat: add x''"
  "cleanContent ''  ```text\<newline>fix: y\<newline>```  '' = ''fix: y''"
  "cleanContent ''```feat: add x```'' = ''feat: add x''"
  "cleanContent ''`fix: z`'' = ''fix: z''"
  "cleanContent ''a``b'' = ''a``b''"
  by code_simp+

lemma parseAIResponse_fenced_example:
  "parseAIResponse ''```\<newline>feat: add x\<newline>```'' Conventional =
     Inr \<lparr>message = \<lparr>title = ''feat: add x'', body = None, type = Some ''feat'', scope = None,
                      breaking = Some False, footer = None\<rparr>,
          confidence = Double 9007199254740991 (- 53), reasoning = None\<rparr>"
  by code_simp

subsection \<open>Empty responses\<close>

lemma parse_result_cases:
  "parseAIResponse content sty = Inl EmptyResponse \<or> (\<exists>g. parseAIResponse content sty = Inr g)"
  by (simp add: parseAIResponse_def Let_def split: list.splits prod.splits)

lemma parse_fails_iff:
  "parseAIResponse content sty = Inl EmptyResponse
     \<longleftrightarrow> (\<forall>l \<in> set (split (cleanedText content) CHR 0x0A). \<forall>c \<in> set l. isWhiteSpace c)"
proof -
  define L where "L = filter (\<lambda>line. trim line \<noteq> []) (split (cleanContent content) CHR 0x0A)"
  have "parseAIResponse content sty = Inl EmptyResponse \<longleftrightarrow> L = []"
    unfolding parseAIResponse_def L_def [symmetric]
    by (cases L) (simp_all add: Let_def split: prod.splits)
  also have "L = [] \<longleftrightarrow>
      (\<forall>l \<in> set (split (cleanContent content) CHR 0x0A). \<forall>c \<in> set l. isWhiteSpace c)"
    unfolding L_def by (simp add: filter_empty_conv trim_empty_iff)
  finally show ?thesis unfolding cleanContent_cleanedText .
qed

text \<open>The lines of a text are all blank exactly when the text is white space.\<close>

lemma set_split: "(\<Union>l \<in> set (split s c). set l) = set s - {c}"
proof (induction s)
  case Nil
  then show ?case by simp
next
  case (Cons a s)
  obtain l ls where sp: "split s c = l # ls" by (cases "split s c") (simp_all add: split_nonempty)
  with Cons have ih: "set l \<union> (\<Union>l \<in> set ls. set l) = set s - {c}" by simp
  show ?case
  proof (cases "a = c")
    case True
    then show ?thesis using sp ih by auto
  next
    case False
    then have "(\<Union>l \<in> set (split (a # s) c). set l) = insert a (set l \<union> (\<Union>l \<in> set ls. set l))"
      using sp by simp
    also have "\<dots> = set (a # s) - {c}" unfolding ih using False by auto
    finally show ?thesis .
  qed
qed

lemma lines_blank_iff:
  "(\<forall>l \<in> set (split s CHR 0x0A). \<forall>c \<in> set l. isWhiteSpace c) \<longleftrightarrow> (\<forall>c \<in> set s. isWhiteSpace c)"
proof -
  have "(\<forall>l \<in> set (split s CHR 0x0A). \<forall>c \<in> set l. isWhiteSpace c)
          \<longleftrightarrow> (\<forall>c \<in> (\<Union>l \<in> set (split s CHR 0x0A). set l). isWhiteSpace c)"
    by blast
  also have "\<dots> \<longleftrightarrow> (\<forall>c \<in> set s - {CHR 0x0A}. isWhiteSpace c)"
    by (simp only: set_split)
  also have "\<dots> \<longleftrightarrow> (\<forall>c \<in> set s. isWhiteSpace c)"
    by (auto simp: isWhiteSpace_def)
  finally show ?thesis .
qed


text \<open>
  C3. For every input and every style, the interpreter fails exactly when, the input
  trimmed and one opening fence, one closing fence and the backtick runs at both ends
  removed from it, every line of what is left is blank, that is, all that is left is
  white space; it fails with \<open>EmptyResponse\<close> and with no other error, and otherwise it
  returns a message. The empty input and the input \<^verbatim>\<open>"   \n\n  "\<close> fail under every style.
\<close>

theorem parseAIResponse_empty:
  "(parseAIResponse content sty = Inl EmptyResponse
      \<longleftrightarrow> (\<forall>l \<in> set (split (cleanedText content) CHR 0x0A). \<forall>c \<in> set l. isWhiteSpace c)) \<and>
   (parseAIResponse content sty = Inl EmptyResponse
      \<longleftrightarrow> (\<forall>c \<in> set (cleanedText content). isWhiteSpace c)) \<and>
   (\<forall>e. parseAIResponse content sty = Inl e \<longrightarrow> e = EmptyResponse) \<and>
   (\<not> (\<forall>l \<in> set (split (cleanedText content) CHR 0x0A). \<forall>c \<in> set l. isWhiteSpace c)
      \<longrightarrow> (\<exists>g. parseAIResponse content sty = Inr g)) \<and>
   parseAIResponse [] sty = Inl EmptyResponse \<and>
   parseAIResponse ''   \<newline>\<newline>  '' sty = Inl EmptyResponse"
proof -
  have 1: "\<forall>c \<in> set (cleanedText []). isWhiteSpace c"
    by (simp add: cleanedText_def stripBackticks_def stripClosingFence_def stripOpeningFence_def
          trim_def)
  have "trim ''   \<newline>\<newline>  '' = []"
    by (simp add: trim_def isWhiteSpace_def)
  then have 2: "\<forall>c \<in> set (cleanedText ''   \<newline>\<newline>  ''). isWhiteSpace c"
    by (simp add: cleanedText_def stripBackticks_def stripClosingFence_def stripOpeningFence_def)
  note iff = parse_fails_iff [unfolded lines_blank_iff]
  have 3: "parseAIResponse [] sty = Inl EmptyResponse"
    using 1 by (simp only: iff)
  have 4: "parseAIResponse ''   \<newline>\<newline>  '' sty = Inl EmptyResponse"
    using 2 by (simp only: iff)
  have 5: "\<forall>e. parseAIResponse content sty = Inl e \<longrightarrow> e = EmptyResponse"
    using parse_result_cases [of content sty] by auto
  have 6: "\<not> (\<forall>l \<in> set (split (cleanedText content) CHR 0x0A). \<forall>c \<in> set l. isWhiteSpace c)
      \<longrightarrow> (\<exists>g. parseAIResponse content sty = Inr g)"
    using parse_result_cases [of content sty] parse_fails_iff [of content sty] by blast
  from 3 4 5 6 parse_fails_iff [of content sty] iff [of content sty] show ?thesis by blast
qed

text \<open>
  The theorem at a fenced block with a language tag and nothing inside, at a closing fence
  without an opening one, under two backtick runs around a space, and at a fenced block
  with a title inside.
\<close>

theorem parseAIResponse_empty_witness:
  "parseAIResponse ''```text\<newline>```'' Detailed = Inl EmptyResponse \<and>
   parseAIResponse ''`` ``\<newline>```'' Standard = Inl EmptyResponse \<and>
   (\<exists>g. parseAIResponse ''```\<newline>feat: add x\<newline>```'' Detailed = Inr g)"
proof -
  have 1: "\<forall>c \<in> set (cleanedText ''```text\<newline>```''). isWhiteSpace c"
    by code_simp
  have 2: "\<forall>c \<in> set (cleanedText ''`` ``\<newline>```''). isWhiteSpace c"
    by code_simp
  have 3: "\<not> (\<forall>l \<in> set (split (cleanedText ''```\<newline>feat: add x\<newline>```'') CHR 0x0A).
                \<forall>c \<in> set l. isWhiteSpace c)"
    by code_simp
  show ?thesis
    using parseAIResponse_empty [of "''```text\<newline>```''" Detailed]
      parseAIResponse_empty [of "''`` ``\<newline>```''" Standard]
      parseAIResponse_empty [of "''```\<newline>feat: add x\<newline>```''" Detailed] 1 2 3
    by blast
qed

subsection \<open>The title grammar of conventional commits\<close>







lemma afterScope_fails:
  "c \<noteq> CHR ''!'' \<Longrightarrow> c \<noteq> CHR '':'' \<Longrightarrow>
   run n (Seq (Opt (Group 3 (Atom (Chr CHR ''!'')))) (Seq (Atom (Chr CHR '':'')) r)) (c # cs) g k = None"
  by simp



















subsection \<open>The sections of the prompt\<close>

lemma fold_append: "fold (\<lambda>x p. p @ f x) xs p0 = p0 @ concat (map f xs)"
  by (induction xs arbitrary: p0) simp_all

text \<open>
  C5. The user prompt is a function of the context alone and consists of, in this order:
  the task header with the style; the repository line, if there is a name; the branch
  line, if there is one; the files-changed header and one line for each file change, in the
  order of the input, rendered as \<^verbatim>\<open><status>: <path> (+<insertions>/-<deletions>)\<close>; the
  first three prior commit subjects in their order, if any were given; the truncated raw
  diff in a code fence; the closing instruction.
\<close>

theorem buildPrompt_sections:
  "buildPrompt ctx =
     ''Analyze this git diff and generate a '' @ styleText (AIPromptContext.style ctx)
       @ '' commit message:\<newline>\<newline>''
     @ (if orEmpty (repoName ctx) = [] then [] else ''Repository: '' @ orEmpty (repoName ctx) @ ''\<newline>'')
     @ (if orEmpty (branch ctx) = [] then [] else ''Branch: '' @ orEmpty (branch ctx) @ ''\<newline>'')
     @ ''\<newline>Files changed ('' @ numberToString (filesChanged (summary (AIPromptContext.diff ctx)))
       @ ''):\<newline>''
     @ concat (map (\<lambda>f. ''- '' @ renderFileChange f @ ''\<newline>'') (files (AIPromptContext.diff ctx)))
     @ (case previousCommits ctx of
          None \<Rightarrow> []
        | Some cs \<Rightarrow>
            if cs = [] then []
            else ''\<newline>Recent commits for context:\<newline>''
                 @ concat (map (\<lambda>c. ''- '' @ c @ ''\<newline>'') (take 3 cs)))
     @ ''\<newline>Git diff:\<newline>```diff\<newline>''
     @ truncateDiff (raw (AIPromptContext.diff ctx)) 3000
     @ ''\<newline>```\<newline>''
     @ ''\<newline>Generate a '' @ styleText (AIPromptContext.style ctx)
       @ '' commit message. Respond with ONLY the commit message, no additional text.''"
proof -
  have files: "fold (\<lambda>file p. p @ ''- '' @ statusText (status file) @ '': '' @ path file
                                    @ '' (+'' @ numberToString (GitFile.insertions file)
                                    @ ''/-'' @ numberToString (GitFile.deletions file) @ '')\<newline>'')
                 fs p0
               = p0 @ concat (map (\<lambda>f. ''- '' @ renderFileChange f @ ''\<newline>'') fs)" for fs p0
    using fold_append [of "\<lambda>f. ''- '' @ renderFileChange f @ ''\<newline>''" fs p0]
    by (simp add: renderFileChange_def)
  have commits: "fold (\<lambda>commit p. p @ ''- '' @ commit @ ''\<newline>'') cs p0
                 = p0 @ concat (map (\<lambda>c. ''- '' @ c @ ''\<newline>'') cs)" for cs p0
    by (rule fold_append)
  show ?thesis
    unfolding buildPrompt_def Let_def files commits
    by (simp add: orEmpty_def split: option.splits)
qed

subsection \<open>The conventional format\<close>

lemma formatConventionalCommit_unfold:
  "formatConventionalCommit m =
     (if orEmpty (type m) = [] then []
      else orEmpty (type m)
           @ (if orEmpty (scope m) = [] then [] else ''('' @ orEmpty (scope m) @ '')'')
           @ (if breaking m = Some True then ''!'' else [])
           @ '': '')
     @ title m
     @ (if orEmpty (body m) = [] then [] else ''\<newline>\<newline>'' @ orEmpty (body m))
     @ (if orEmpty (footer m) = [] then [] else ''\<newline>\<newline>'' @ orEmpty (footer m))"
  by (simp add: formatConventionalCommit_def orEmpty_def Let_def split: option.splits)

text \<open>
  C9, as amended. The conventional format is the title, preceded, when the message has a
  type, by the type, the scope in parentheses if there is one, \<open>!\<close> if the message is
  breaking, and a colon and a space; a message without a type gets no prefix at all, whatever
  its scope and breaking flag. A blank line and the body follow if there is a body, then a
  blank line and the footer if there is a footer.
\<close>

theorem formatConventional_shape:
  "formatCommitMessage m Conventional =
     (if orEmpty (type m) = [] then []
      else orEmpty (type m)
           @ (if orEmpty (scope m) = [] then [] else ''('' @ orEmpty (scope m) @ '')'')
           @ (if breaking m = Some True then ''!'' else [])
           @ '': '')
     @ title m
     @ (if orEmpty (body m) = [] then [] else ''\<newline>\<newline>'' @ orEmpty (body m))
     @ (if orEmpty (footer m) = [] then [] else ''\<newline>\<newline>'' @ orEmpty (footer m))"
  by (simp only: formatCommitMessage_def CommitStyle.case formatConventionalCommit_unfold)

text \<open>
  C9 as stated fails: a message with a scope, a breaking flag and no type is formatted as its
  bare title, while the specification's wording keeps the scope and the \<open>!\<close>.
\<close>

theorem formatConventional_scope_counterexample:
  "formatCommitMessage \<lparr>title = ''x'', body = None, type = None, scope = Some ''api'',
                        breaking = Some True, footer = None\<rparr> Conventional = ''x'' \<and>
   conventionalAsClaimed \<lparr>title = ''x'', body = None, type = None, scope = Some ''api'',
                          breaking = Some True, footer = None\<rparr> = ''(api)!: x''"
  by (simp add: formatCommitMessage_def formatConventionalCommit_def conventionalAsClaimed_def
           orEmpty_def)

subsection \<open>Formatting, then validating\<close>

lemma denotes_SeqI:
  "denotes n r1 u1 (u2 @ v) \<Longrightarrow> denotes n r2 u2 v \<Longrightarrow> denotes n (Seq r1 r2) (u1 @ u2) v"
  by auto

lemma denotes_type:
  "t \<in> set commitTypes \<Longrightarrow>
   denotes n (Group 1 (alts [Lit ''feat'', Lit ''fix'', Lit ''docs'', Lit ''style'', Lit ''refactor'',
                          Lit ''test'', Lit ''chore'', Lit ''perf'', Lit ''ci'', Lit ''build'',
                          Lit ''revert''])) t v"
  by (auto simp: commitTypes_def)

lemma denotes_scope:
  "s \<noteq> [] \<Longrightarrow> \<forall>c \<in> set s. \<not> isLineTerminator c \<Longrightarrow>
   denotes n (Opt (Group 2 (seqs [Atom (Chr CHR ''(''), Plus Dot, Atom (Chr CHR '')'')])))
     (''('' @ s @ '')'') v"
proof -
  assume s: "s \<noteq> []" "\<forall>c \<in> set s. \<not> isLineTerminator c"
  have "denotes n (Seq (Plus Dot) (Atom (Chr CHR '')''))) (s @ '')'') v"
    using s by (intro denotes_SeqI) auto
  then have "denotes n (Seq (Atom (Chr CHR ''('')) (Seq (Plus Dot) (Atom (Chr CHR '')''))))
               (''('' @ (s @ '')'')) v"
    by (intro denotes_SeqI) auto
  then show ?thesis by simp
qed

lemma denotes_tail:
  "\<not> isLineTerminator c \<Longrightarrow>
   denotes n (seqs [Atom (Chr CHR '':''), Atom Space, Plus Dot]) ('': '' @ [c]) v"
proof -
  assume c: "\<not> isLineTerminator c"
  have "denotes n (Seq (Atom Space) (Plus Dot)) ('' '' @ [c]) v"
    using c by (intro denotes_SeqI) (auto simp: isWhiteSpace_def)
  then have "denotes n (Seq (Atom (Chr CHR '':'')) (Seq (Atom Space) (Plus Dot)))
               ('':'' @ ('' '' @ [c])) v"
    by (intro denotes_SeqI) auto
  then show ?thesis by simp
qed

lemma test_conventionalPattern:
  assumes t: "t \<in> set commitTypes"
    and sc: "sc = [] \<or> (\<exists>s. sc = ''('' @ s @ '')'' \<and> s \<noteq> [] \<and> (\<forall>c \<in> set s. \<not> isLineTerminator c))"
    and b: "b = [] \<or> b = ''!''"
    and c: "\<not> isLineTerminator c"
  shows "test conventionalPattern (t @ sc @ b @ '': '' @ c # rest)"
proof -
  let ?n = "length (t @ sc @ b @ '': '' @ c # rest)"
  have d1: "denotes ?n (Opt (Group 2 (seqs [Atom (Chr CHR ''(''), Plus Dot, Atom (Chr CHR '')'')]))) sc v"
    for v using sc denotes_scope [of _ ?n v] by auto
  have d2: "denotes ?n (Opt (Atom (Chr CHR ''!''))) b v" for v
    using b by auto
  have d3: "denotes ?n (seqs [Atom (Chr CHR '':''), Atom Space, Plus Dot]) ('': '' @ [c]) v" for v
    using c by (rule denotes_tail)
  have "denotes ?n
          (Seq (Group 1 (alts [Lit ''feat'', Lit ''fix'', Lit ''docs'', Lit ''style'', Lit ''refactor'',
                          Lit ''test'', Lit ''chore'', Lit ''perf'', Lit ''ci'', Lit ''build'',
                          Lit ''revert'']))
          (Seq (Opt (Group 2 (seqs [Atom (Chr CHR ''(''), Plus Dot, Atom (Chr CHR '')'')])))
          (Seq (Opt (Atom (Chr CHR ''!'')))
               (seqs [Atom (Chr CHR '':''), Atom Space, Plus Dot]))))
          (t @ sc @ b @ ('': '' @ [c])) rest"
    by (intro denotes_SeqI denotes_type t d1 d2 d3)
  then have "run ?n
          (Seq (Group 1 (alts [Lit ''feat'', Lit ''fix'', Lit ''docs'', Lit ''style'', Lit ''refactor'',
                          Lit ''test'', Lit ''chore'', Lit ''perf'', Lit ''ci'', Lit ''build'',
                          Lit ''revert'']))
          (Seq (Opt (Group 2 (seqs [Atom (Chr CHR ''(''), Plus Dot, Atom (Chr CHR '')'')])))
          (Seq (Opt (Atom (Chr CHR ''!'')))
               (seqs [Atom (Chr CHR '':''), Atom Space, Plus Dot]))))
          ((t @ sc @ b @ ('': '' @ [c])) @ rest) Map.empty (\<lambda>s' g. Some (0::nat, s', g)) \<noteq> None"
    by (rule run_complete) simp
  then show ?thesis
    by (simp add: test_def conventionalPattern_def exec_Bol)
qed

text \<open>
  C6, as amended. A message whose type is one of the eleven tags, whose title is not empty
  and does not start with a line terminator, and whose scope, if any, has no line
  terminator, is formatted to a text that the validator accepts under the conventional
  style.
\<close>

theorem format_validate_roundtrip:
  assumes ty: "type m = Some t" "t \<in> set commitTypes"
    and ti: "title m \<noteq> []" "\<not> isLineTerminator (hd (title m))"
    and sc: "\<forall>c \<in> set (orEmpty (scope m)). \<not> isLineTerminator c"
  shows "validateCommitMessage (formatCommitMessage m Conventional) Conventional"
proof -
  obtain c rest0 where tc: "title m = c # rest0" using ti(1) by (cases "title m") auto
  with ti(2) have c: "\<not> isLineTerminator c" by simp
  have tne: "t \<noteq> []" using ty(2) by (auto simp: commitTypes_def)
  define S where "S = (if orEmpty (scope m) = [] then [] else ''('' @ orEmpty (scope m) @ '')'')"
  define B where "B = (if breaking m = Some True then ''!'' else [])"
  define R where "R = rest0
     @ (if orEmpty (body m) = [] then [] else ''\<newline>\<newline>'' @ orEmpty (body m))
     @ (if orEmpty (footer m) = [] then [] else ''\<newline>\<newline>'' @ orEmpty (footer m))"
  have f: "formatCommitMessage m Conventional = t @ S @ B @ '': '' @ c # R"
    using ty(1) tne tc by (simp add: formatConventionalCommit_unfold formatCommitMessage_def orEmpty_def S_def B_def R_def)
  have "S = [] \<or> (\<exists>s. S = ''('' @ s @ '')'' \<and> s \<noteq> [] \<and> (\<forall>c \<in> set s. \<not> isLineTerminator c))"
    using sc by (auto simp: S_def)
  moreover have "B = [] \<or> B = ''!''" by (simp add: B_def)
  ultimately have m: "test conventionalPattern (t @ S @ B @ '': '' @ c # R)"
    using ty(2) c by (intro test_conventionalPattern)
  have "\<not> isWhiteSpace (hd t)" using ty(2) by (auto simp: commitTypes_def isWhiteSpace_def)
  then have "\<exists>x \<in> set (t @ S @ B @ '': '' @ c # R). \<not> isWhiteSpace x"
    using tne by (cases t) auto
  then have "trim (t @ S @ B @ '': '' @ c # R) \<noteq> []"
    by (simp only: trim_empty_iff) blast
  with m show ?thesis
    by (simp add: f validateCommitMessage_def validateConventionalCommit_def)
qed

text \<open>The theorem at a breaking fix with a scope and a body.\<close>

theorem format_validate_roundtrip_witness:
  "validateCommitMessage
     (formatCommitMessage \<lparr>title = ''handle edge case'', body = Some ''Details here.'',
        type = Some ''fix'', scope = Some ''parser'', breaking = Some True, footer = None\<rparr>
        Conventional) Conventional"
  by (rule format_validate_roundtrip [where t = "''fix''"])
     (simp_all add: commitTypes_def orEmpty_def isLineTerminator_def)

text \<open>
  C6 as stated fails: with a line break inside the scope the formatted text is rejected,
  although the type is a recognised tag and the title is not empty.
\<close>

theorem format_validate_counterexample:
  "formatCommitMessage \<lparr>title = ''x'', body = None, type = Some ''fix'',
        scope = Some ''a\<newline>b'', breaking = None, footer = None\<rparr> Conventional
     = ''fix(a\<newline>b): x'' \<and>
   \<not> validateCommitMessage
       (formatCommitMessage \<lparr>title = ''x'', body = None, type = Some ''fix'',
          scope = Some ''a\<newline>b'', breaking = None, footer = None\<rparr> Conventional)
       Conventional"
  by code_simp

subsection \<open>The standard validator\<close>

text \<open>
  C7. A text that is entirely blank is rejected under every style; a text that is not is
  rejected under the standard style exactly when its first line is longer than 50 characters
  or ends with a period.
\<close>

theorem validateCommitMessage_standard:
  "((\<forall>c \<in> set msg. isWhiteSpace c) \<longrightarrow> \<not> validateCommitMessage msg sty) \<and>
   (\<not> (\<forall>c \<in> set msg. isWhiteSpace c) \<longrightarrow>
      validateCommitMessage msg Standard =
        (\<not> (50 < length (takeWhile (\<lambda>c. c \<noteq> CHR 0x0A) msg) \<or>
            endsWith (takeWhile (\<lambda>c. c \<noteq> CHR 0x0A) msg) ''.'')))"
proof -
  obtain ls where "split msg CHR 0x0A = takeWhile (\<lambda>c. c \<noteq> CHR 0x0A) msg # ls"
    using split_first by blast
  then show ?thesis
    by (auto simp: validateCommitMessage_def validateStandardCommit_def trim_empty_iff)
qed

text \<open>The theorem at a blank text, at a title with a final period and at one without.\<close>

theorem validateCommitMessage_standard_witness:
  "\<not> validateCommitMessage ''  \<newline> '' Conventional \<and>
   \<not> validateCommitMessage ''Add parser.\<newline>body'' Standard \<and>
   validateCommitMessage ''Add parser\<newline>body.'' Standard"
proof -
  have blank: "\<forall>c \<in> set ''  \<newline> ''. isWhiteSpace c"
    by (simp add: isWhiteSpace_def)
  have period: "\<not> (\<forall>c \<in> set ''Add parser.\<newline>body''. isWhiteSpace c)"
    "endsWith (takeWhile (\<lambda>c. c \<noteq> CHR 0x0A) ''Add parser.\<newline>body'') ''.''"
    by (simp_all add: isWhiteSpace_def endsWith_def suffix_to_prefix)
  have plain: "\<not> (\<forall>c \<in> set ''Add parser\<newline>body.''. isWhiteSpace c)"
    "\<not> 50 < length (takeWhile (\<lambda>c. c \<noteq> CHR 0x0A) ''Add parser\<newline>body.'')"
    "\<not> endsWith (takeWhile (\<lambda>c. c \<noteq> CHR 0x0A) ''Add parser\<newline>body.'') ''.''"
    by (simp_all add: isWhiteSpace_def endsWith_def suffix_to_prefix)
  from validateCommitMessage_standard [of "''  \<newline> ''" Conventional] blank
  have 1: "\<not> validateCommitMessage ''  \<newline> '' Conventional" by blast
  from validateCommitMessage_standard [of "''Add parser.\<newline>body''" Standard] period
  have 2: "\<not> validateCommitMessage ''Add parser.\<newline>body'' Standard" by blast
  from validateCommitMessage_standard [of "''Add parser\<newline>body.''" Standard] plain
  have 3: "validateCommitMessage ''Add parser\<newline>body.'' Standard" by blast
  from 1 2 3 show ?thesis by blast
qed

subsection \<open>What the command-line flow commits, and with which configuration\<close>

text \<open>
  The service always calls the provider, with the configuration it was given; a reply with
  a text that the interpreter accepts is the generated message.
\<close>

lemma aiGenerate_calls:
  "fst (aiGenerateCommitMessage c ctx reply)
     = [ProviderCall c (getSystemPrompt (AIPromptContext.style ctx)) (buildPrompt ctx)]"
  by (simp add: aiGenerateCommitMessage_def Let_def)

lemma aiGenerate_result:
  "content \<noteq> [] \<Longrightarrow> parseAIResponse content (AIPromptContext.style ctx) = Inr result \<Longrightarrow>
   snd (aiGenerateCommitMessage c ctx (Content (Some content))) = Inr result"
  by (simp add: aiGenerateCommitMessage_def Let_def)

text \<open>
  With an API key, a repository, staged changes and their diff, the flow reaches the provider
  call, whatever the numeric settings of the configuration are.
\<close>

lemma provider_always_called:
  assumes "apiKey (ai cfg) \<noteq> []" "isValidRepository w" "hasStagedChanges w" "getStagedDiff w = Some d"
  shows "\<exists>sys usr evs. fst (generateCommitMessage cfg opts (w # ws)) = ProviderCall (ai cfg) sys usr # evs"
proof -
  define ctx where "ctx = \<lparr>AIPromptContext.diff = d,
      style = (case CLIOptions.style opts of Some s \<Rightarrow> s | None \<Rightarrow> defaultStyle (git cfg)),
      repoName = getRepoName w,
      branch = (case getCurrentBranch w of Some b \<Rightarrow> Some b | None \<Rightarrow> Some ''main''),
      previousCommits = (case getRecentCommits w of Some cs \<Rightarrow> Some cs | None \<Rightarrow> Some [])\<rparr>"
  obtain calls gen where g: "aiGenerateCommitMessage (ai cfg) ctx (createCompletion w) = (calls, gen)"
    by (cases "aiGenerateCommitMessage (ai cfg) ctx (createCompletion w)")
  with aiGenerate_calls [of "ai cfg" ctx "createCompletion w"]
  have calls: "calls = [ProviderCall (ai cfg) (getSystemPrompt (AIPromptContext.style ctx)) (buildPrompt ctx)]"
    by simp
  have "\<exists>evs. fst (generateCommitMessage cfg opts (w # ws)) = calls @ evs"
    using assms g [unfolded ctx_def]
    by (simp add: getAIConfig_def Let_def split: sum.splits action.splits prod.splits option.splits)
  with calls show ?thesis by auto
qed

text \<open>A pass that generates a message and commits it, in full.\<close>

lemma committing_pass:
  assumes "apiKey (ai cfg) \<noteq> []"
    and "isValidRepository w" and "hasStagedChanges w" and "getStagedDiff w = Some d"
    and "createCompletion w = Content (Some content)" and "content \<noteq> []"
    and "parseAIResponse content
           (case CLIOptions.style opts of Some s \<Rightarrow> s | None \<Rightarrow> defaultStyle (git cfg)) = Inr result"
    and "\<not> dryRun opts"
    and "(commit opts \<and> \<not> interactive opts) \<or>
         ((interactive opts \<or> \<not> commit opts) \<and> promptForAction w = ActCommit)"
  shows "\<exists>sys usr. generateCommitMessage cfg opts (w # ws)
           = ([ProviderCall (ai cfg) sys usr, GitCommit (title (message result))],
              if commitSucceeds w then Done else Failed CommitFailed)"
proof -
  define ctx where "ctx = \<lparr>AIPromptContext.diff = d,
      style = (case CLIOptions.style opts of Some s \<Rightarrow> s | None \<Rightarrow> defaultStyle (git cfg)),
      repoName = getRepoName w,
      branch = (case getCurrentBranch w of Some b \<Rightarrow> Some b | None \<Rightarrow> Some ''main''),
      previousCommits = (case getRecentCommits w of Some cs \<Rightarrow> Some cs | None \<Rightarrow> Some [])\<rparr>"
  obtain calls gen where g: "aiGenerateCommitMessage (ai cfg) ctx (createCompletion w) = (calls, gen)"
    by (cases "aiGenerateCommitMessage (ai cfg) ctx (createCompletion w)")
  with aiGenerate_calls [of "ai cfg" ctx "createCompletion w"]
  have calls: "calls = [ProviderCall (ai cfg) (getSystemPrompt (AIPromptContext.style ctx)) (buildPrompt ctx)]"
    by simp
  have "AIPromptContext.style ctx
          = (case CLIOptions.style opts of Some s \<Rightarrow> s | None \<Rightarrow> defaultStyle (git cfg))"
    by (simp add: ctx_def)
  with assms(5,6,7) g aiGenerate_result [of content ctx result "ai cfg"]
  have gen: "gen = Inr result" by simp
  have "generateCommitMessage cfg opts (w # ws)
          = (calls @ [GitCommit (title (message result))],
             if commitSucceeds w then Done else Failed CommitFailed)"
    using assms(1,2,3,4,8,9) g [unfolded ctx_def gen]
    by (auto simp: getAIConfig_def performCommit_def Let_def)
  with calls show ?thesis by simp
qed

text \<open>
  C10. When a pass of the flow generates a message and commits it, in the automatic mode
  or on the user's choice to commit, the calls of the pass are the provider call and one
  commit whose text is the title of the generated message: the body, the structured fields
  and the formatter take no part in it.
\<close>

theorem commit_passes_title:
  assumes "apiKey (ai cfg) \<noteq> []"
    and "isValidRepository w" and "hasStagedChanges w" and "getStagedDiff w = Some d"
    and "createCompletion w = Content (Some content)" and "content \<noteq> []"
    and "parseAIResponse content
           (case CLIOptions.style opts of Some s \<Rightarrow> s | None \<Rightarrow> defaultStyle (git cfg)) = Inr result"
    and "\<not> dryRun opts"
    and "(commit opts \<and> \<not> interactive opts) \<or>
         ((interactive opts \<or> \<not> commit opts) \<and> promptForAction w = ActCommit)"
  shows "\<exists>sys usr. fst (generateCommitMessage cfg opts (w # ws))
           = [ProviderCall (ai cfg) sys usr, GitCommit (title (message result))]"
proof -
  from committing_pass [OF assms, of ws] obtain sys usr where
    "generateCommitMessage cfg opts (w # ws)
       = ([ProviderCall (ai cfg) sys usr, GitCommit (title (message result))],
          if commitSucceeds w then Done else Failed CommitFailed)"
    by blast
  then have "fst (generateCommitMessage cfg opts (w # ws))
       = [ProviderCall (ai cfg) sys usr, GitCommit (title (message result))]"
    by simp
  then show ?thesis by blast
qed

text \<open>
  The theorem at an automatic commit of a conventional message with a body: the commit text
  is the first line alone.
\<close>

theorem commit_passes_title_witness:
  "\<exists>sys usr.
     fst (generateCommitMessage
            \<lparr>ai = \<lparr>apiKey = ''sk-test'', model = ''gpt-4o-mini'', maxTokens = 100, temperature = 0.7,
                    organization = None\<rparr>,
             git = \<lparr>defaultStyle = Detailed, maxDiffSize = 50000, excludeFiles = []\<rparr>,
             ui = \<lparr>colorOutput = True, showDiff = False\<rparr>\<rparr>
            \<lparr>commit = True, interactive = False, style = Some Conventional, dryRun = False,
               verbose = False\<rparr>
            [\<lparr>isValidRepository = True, hasStagedChanges = True,
              getStagedDiff = Some \<lparr>files = [], summary = \<lparr>insertions = 0, deletions = 0,
                                    filesChanged = 0\<rparr>, raw = ''+a''\<rparr>,
              getCurrentBranch = Some ''main'', getRepoName = None, getRecentCommits = Some [],
              createCompletion = Content (Some ''fix(parser)!: handle edge case\<newline>\<newline>Details here.''),
              promptForAction = ActCancel, editedMessage = [], commitSucceeds = True\<rparr>])
     = [ProviderCall
          \<lparr>apiKey = ''sk-test'', model = ''gpt-4o-mini'', maxTokens = 100, temperature = 0.7,
             organization = None\<rparr> sys usr,
        GitCommit ''fix(parser)!: handle edge case'']"
proof -
  let ?cfg = "\<lparr>ai = \<lparr>apiKey = ''sk-test'', model = ''gpt-4o-mini'', maxTokens = 100, temperature = 0.7,
                    organization = None\<rparr>,
             git = \<lparr>defaultStyle = Detailed, maxDiffSize = 50000, excludeFiles = []\<rparr>,
             ui = \<lparr>colorOutput = True, showDiff = False\<rparr>\<rparr>"
  let ?opts = "\<lparr>commit = True, interactive = False, style = Some Conventional, dryRun = False,
               verbose = False\<rparr>"
  let ?d = "\<lparr>files = [], summary = \<lparr>insertions = 0, deletions = 0, filesChanged = 0\<rparr>, raw = ''+a''\<rparr>"
  let ?content = "''fix(parser)!: handle edge case\<newline>\<newline>Details here.''"
  let ?w = "\<lparr>isValidRepository = True, hasStagedChanges = True, getStagedDiff = Some ?d,
              getCurrentBranch = Some ''main'', getRepoName = None, getRecentCommits = Some [],
              createCompletion = Content (Some ?content),
              promptForAction = ActCancel, editedMessage = [], commitSucceeds = True\<rparr>"
  let ?result = "\<lparr>message = \<lparr>title = ''fix(parser)!: handle edge case'', body = Some ''Details here.'',
                      type = Some ''fix'', scope = Some ''parser'', breaking = Some True,
                      footer = None\<rparr>,
          confidence = Double 9007199254740991 (- 53), reasoning = None\<rparr>"
  have h1: "apiKey (ai ?cfg) \<noteq> []" by simp
  have h2: "isValidRepository ?w" by simp
  have h3: "hasStagedChanges ?w" by simp
  have h4: "getStagedDiff ?w = Some ?d" by simp
  have h5: "createCompletion ?w = Content (Some ?content)" by simp
  have h6: "?content \<noteq> []" by simp
  have "parseAIResponse ?content Conventional = Inr ?result" by code_simp
  then have h7: "parseAIResponse ?content
           (case CLIOptions.style ?opts of Some s \<Rightarrow> s | None \<Rightarrow> defaultStyle (git ?cfg)) = Inr ?result"
    by simp
  have h8: "\<not> dryRun ?opts" by simp
  have h9: "(commit ?opts \<and> \<not> interactive ?opts) \<or>
         ((interactive ?opts \<or> \<not> commit ?opts) \<and> promptForAction ?w = ActCommit)" by simp
  from commit_passes_title [OF h1 h2 h3 h4 h5 h6 h7 h8 h9, of "[]"] show ?thesis by simp
qed

text \<open>
  Over a whole flow, with any number of regenerations, every text passed to the commit
  operation is the title of a message generated in one of the passes, or the text the user
  typed when editing.
\<close>

lemma pass_commit:
  assumes c: "GitCommit s \<in> set (fst (generateCommitMessage cfg opts (w # ws)))"
  shows "\<exists>content result.
      createCompletion w = Content (Some content) \<and>
      parseAIResponse content
        (case CLIOptions.style opts of Some st \<Rightarrow> st | None \<Rightarrow> defaultStyle (git cfg)) = Inr result \<and>
      (s = title (message result) \<or>
       (promptForAction w = ActEdit \<and> s = trim (editedMessage w)) \<or>
       (promptForAction w = ActRegenerate \<and>
        GitCommit s \<in> set (fst (generateCommitMessage cfg (opts\<lparr>interactive := True\<rparr>) ws))))"
proof -
  have key: "getAIConfig cfg = Inr (ai cfg)"
    using c by (cases "apiKey (ai cfg) = []") (simp_all add: getAIConfig_def)
  have repo: "isValidRepository w" "hasStagedChanges w"
    using c key by (auto split: if_splits)
  obtain d where d: "getStagedDiff w = Some d"
    using c key repo by (cases "getStagedDiff w") auto
  define ctx where "ctx = \<lparr>AIPromptContext.diff = d,
      style = (case CLIOptions.style opts of Some s \<Rightarrow> s | None \<Rightarrow> defaultStyle (git cfg)),
      repoName = getRepoName w,
      branch = (case getCurrentBranch w of Some b \<Rightarrow> Some b | None \<Rightarrow> Some ''main''),
      previousCommits = (case getRecentCommits w of Some cs \<Rightarrow> Some cs | None \<Rightarrow> Some [])\<rparr>"
  obtain calls gen where g: "aiGenerateCommitMessage (ai cfg) ctx (createCompletion w) = (calls, gen)"
    by (cases "aiGenerateCommitMessage (ai cfg) ctx (createCompletion w)")
  with aiGenerate_calls [of "ai cfg" ctx "createCompletion w"]
  have calls: "GitCommit s \<notin> set calls" by auto
  obtain result where gen: "gen = Inr result"
    using c key repo d g [unfolded ctx_def] calls by (cases gen) (auto simp: Let_def)
  have st: "AIPromptContext.style ctx
          = (case CLIOptions.style opts of Some s \<Rightarrow> s | None \<Rightarrow> defaultStyle (git cfg))"
    by (simp add: ctx_def)
  from g gen have "snd (aiGenerateCommitMessage (ai cfg) ctx (createCompletion w)) = Inr result"
    by simp
  then obtain content where content: "createCompletion w = Content (Some content)"
    "parseAIResponse content (AIPromptContext.style ctx) = Inr result"
    by (auto simp: aiGenerateCommitMessage_def Let_def
             split: completion.splits option.splits if_splits sum.splits)
  have "s = title (message result) \<or>
       (promptForAction w = ActEdit \<and> s = trim (editedMessage w)) \<or>
       (promptForAction w = ActRegenerate \<and>
        GitCommit s \<in> set (fst (generateCommitMessage cfg (opts\<lparr>interactive := True\<rparr>) ws)))"
  proof (cases "promptForAction w")
    case ActCommit
    with c key repo d g [unfolded ctx_def gen] calls show ?thesis
      by (auto simp: Let_def performCommit_def split: if_splits)
  next
    case ActEdit
    with c key repo d g [unfolded ctx_def gen] calls show ?thesis
      by (auto simp: Let_def performCommit_def promptForEdit_def split: if_splits)
  next
    case ActRegenerate
    with c key repo d g [unfolded ctx_def gen] calls show ?thesis
      by (auto simp: Let_def performCommit_def split: if_splits prod.splits)
  next
    case ActCancel
    with c key repo d g [unfolded ctx_def gen] calls show ?thesis
      by (auto simp: Let_def performCommit_def split: if_splits)
  qed
  with content st show ?thesis by auto
qed

lemma commits_are_titles_or_edits:
  "GitCommit s \<in> set (fst (generateCommitMessage cfg opts ws)) \<Longrightarrow>
   \<exists>w \<in> set ws. \<exists>content result.
      createCompletion w = Content (Some content) \<and>
      parseAIResponse content
        (case CLIOptions.style opts of Some st \<Rightarrow> st | None \<Rightarrow> defaultStyle (git cfg)) = Inr result \<and>
      (s = title (message result) \<or> (promptForAction w = ActEdit \<and> s = trim (editedMessage w)))"
proof (induction ws arbitrary: opts)
  case Nil
  then show ?case by simp
next
  case (Cons w ws)
  from pass_commit [OF Cons.prems] obtain content result where
    here: "createCompletion w = Content (Some content)"
      "parseAIResponse content
        (case CLIOptions.style opts of Some st \<Rightarrow> st | None \<Rightarrow> defaultStyle (git cfg)) = Inr result"
    and cases: "s = title (message result) \<or>
       (promptForAction w = ActEdit \<and> s = trim (editedMessage w)) \<or>
       (promptForAction w = ActRegenerate \<and>
        GitCommit s \<in> set (fst (generateCommitMessage cfg (opts\<lparr>interactive := True\<rparr>) ws)))"
    by blast
  show ?case
  proof (cases "GitCommit s \<in> set (fst (generateCommitMessage cfg (opts\<lparr>interactive := True\<rparr>) ws))")
    case True
    from Cons.IH [OF True] show ?thesis by simp
  next
    case False
    with cases here show ?thesis by auto
  qed
qed

text \<open>
  C8 fails on the code. \<open>validateConfig\<close> rejects a maximum output size of 5, but the flow
  never calls it: with that configuration, a repository with staged changes and the
  automatic mode, the provider is called with the size 5 and the commit is made.
\<close>

theorem provider_called_out_of_range:
  "validateConfig
     \<lparr>ai = \<lparr>apiKey = ''sk-test'', model = ''gpt-4o-mini'', maxTokens = 5, temperature = 0.7,
             organization = None\<rparr>,
      git = \<lparr>defaultStyle = Detailed, maxDiffSize = 50000, excludeFiles = []\<rparr>,
      ui = \<lparr>colorOutput = True, showDiff = False\<rparr>\<rparr> = Inl MaxTokensOutOfRange \<and>
   (\<exists>sys usr.
      generateCommitMessage
           \<lparr>ai = \<lparr>apiKey = ''sk-test'', model = ''gpt-4o-mini'', maxTokens = 5, temperature = 0.7,
                   organization = None\<rparr>,
            git = \<lparr>defaultStyle = Detailed, maxDiffSize = 50000, excludeFiles = []\<rparr>,
            ui = \<lparr>colorOutput = True, showDiff = False\<rparr>\<rparr>
           \<lparr>commit = True, interactive = False, style = Some Conventional, dryRun = False,
              verbose = False\<rparr>
           [\<lparr>isValidRepository = True, hasStagedChanges = True,
             getStagedDiff = Some \<lparr>files = [], summary = \<lparr>insertions = 0, deletions = 0,
                                   filesChanged = 0\<rparr>, raw = ''+a''\<rparr>,
             getCurrentBranch = Some ''main'', getRepoName = None, getRecentCommits = Some [],
             createCompletion = Content (Some ''fix: a''), promptForAction = ActCancel,
             editedMessage = [], commitSucceeds = True\<rparr>]
      = ([ProviderCall \<lparr>apiKey = ''sk-test'', model = ''gpt-4o-mini'', maxTokens = 5,
                         temperature = 0.7, organization = None\<rparr> sys usr,
          GitCommit ''fix: a''], Done))"
proof -
  let ?cfg = "\<lparr>ai = \<lparr>apiKey = ''sk-test'', model = ''gpt-4o-mini'', maxTokens = 5, temperature = 0.7,
             organization = None\<rparr>,
      git = \<lparr>defaultStyle = Detailed, maxDiffSize = 50000, excludeFiles = []\<rparr>,
      ui = \<lparr>colorOutput = True, showDiff = False\<rparr>\<rparr>"
  let ?opts = "\<lparr>commit = True, interactive = False, style = Some Conventional, dryRun = False,
              verbose = False\<rparr>"
  let ?d = "\<lparr>files = [], summary = \<lparr>insertions = 0, deletions = 0, filesChanged = 0\<rparr>, raw = ''+a''\<rparr>"
  let ?w = "\<lparr>isValidRepository = True, hasStagedChanges = True, getStagedDiff = Some ?d,
             getCurrentBranch = Some ''main'', getRepoName = None, getRecentCommits = Some [],
             createCompletion = Content (Some ''fix: a''), promptForAction = ActCancel,
             editedMessage = [], commitSucceeds = True\<rparr>"
  let ?result = "\<lparr>message = \<lparr>title = ''fix: a'', body = None, type = Some ''fix'', scope = None,
                      breaking = Some False, footer = None\<rparr>,
                  confidence = Double 7205759403792793 (- 53), reasoning = None\<rparr>"
  have v: "validateConfig ?cfg = Inl MaxTokensOutOfRange"
    by (simp add: validateConfig_def)
  have "parseAIResponse ''fix: a'' Conventional = Inr ?result" by code_simp
  then have p: "parseAIResponse ''fix: a''
           (case CLIOptions.style ?opts of Some s \<Rightarrow> s | None \<Rightarrow> defaultStyle (git ?cfg)) = Inr ?result"
    by simp
  have h1: "apiKey (ai ?cfg) \<noteq> []" by simp
  have h2: "isValidRepository ?w" by simp
  have h3: "hasStagedChanges ?w" by simp
  have h4: "getStagedDiff ?w = Some ?d" by simp
  have h5: "createCompletion ?w = Content (Some ''fix: a'')" by simp
  have h6: "''fix: a'' \<noteq> []" by simp
  have h8: "\<not> dryRun ?opts" by simp
  have h9: "(commit ?opts \<and> \<not> interactive ?opts) \<or>
         ((interactive ?opts \<or> \<not> commit ?opts) \<and> promptForAction ?w = ActCommit)" by simp
  from committing_pass [OF h1 h2 h3 h4 h5 h6 p h8 h9, of "[]"]
  have "\<exists>sys usr. generateCommitMessage ?cfg ?opts [?w]
      = ([ProviderCall \<lparr>apiKey = ''sk-test'', model = ''gpt-4o-mini'', maxTokens = 5,
                         temperature = 0.7, organization = None\<rparr> sys usr,
          GitCommit ''fix: a''], Done)"
    by simp
  with v show ?thesis by blast
qed

end
